theory Spec2Isabelle
  imports Main
begin

section \<open>Data model\<close>

text \<open>
  The event propagation core of the user manager: package \<open>mq\<close> (the bounded event
  queue and the publisher worker), package \<open>rmqconsumer\<close> (the consumer worker) and
  \<open>App.Run\<close> (the lifecycle orchestrator).

  Go's \<open>error\<close> interface is a datatype; \<open>nil\<close> is \<open>None\<close> of \<open>error option\<close>.
  \<open>Errorf\<close> is \<open>fmt.Errorf("<prefix>: %w", err)\<close>.
\<close>

type_synonym bytes = string

datatype error =
    MarshalError string
  | AmqpError string
  | ErrClosed
  | HttpError string
  | ErrServerClosed
  | Errorf string error

datatype log_entry = Info string | Error string error

text \<open>\<open>config.MQ\<close>.\<close>

record MQ =
  User :: string
  Password :: string
  Vhost :: string
  Host :: string
  AmqpPort :: string
  Exchange :: string
  ExchangeType :: string
  QueueName :: string

text \<open>
  \<open>uuid.UUID\<close> and \<open>time.Time\<close> are library types; they are the type parameters
  \<open>'u\<close> and \<open>'t\<close>. \<open>user.User\<close> is the response DTO carried as the event payload,
  \<open>mq.Event\<close> the event itself.
\<close>

record ('u, 't) User =
  UUID :: 'u
  Email :: string
  Name :: string
  Lastname :: string
  BirthDate :: 't
  Phone :: string

record ('u, 't) Event =
  Id :: 'u
  TS :: 't
  Method :: string
  UserID :: string
  Payload :: "('u, 't) User"

text \<open>
  What the model needs of the libraries: \<open>uuid.UUID.String\<close>, the zero values of the two
  library types, \<open>time.Time.MarshalJSON\<close> (it fails for a year outside 0..9999, and
  otherwise gives the RFC 3339 text), and the byte rendering of a JSON document by
  \<open>encoding/json\<close>.
\<close>

datatype json = JString string | JObject "(string \<times> json) list"

record ('u, 't) lib =
  uuid_String :: "'u \<Rightarrow> string"
  uuid_Nil :: 'u
  time_Zero :: 't
  time_MarshalJSON :: "'t \<Rightarrow> error + string"
  json_bytes :: "json \<Rightarrow> bytes"

subsection \<open>\<open>json.Marshal\<close> of an event\<close>

text \<open>
  \<open>json.Marshal\<close> walks the struct fields in declaration order under the names of
  their \<open>json\<close> tags and stops at the first field that fails to marshal.
\<close>

definition User_json :: "('u, 't) lib \<Rightarrow> ('u, 't) User \<Rightarrow> error + json" where
  "User_json L u =
     (case time_MarshalJSON L (BirthDate u) of
        Inl err \<Rightarrow> Inl err
      | Inr bd \<Rightarrow> Inr (JObject
          [(''uuid'', JString (uuid_String L (UUID u))),
           (''email'', JString (Email u)),
           (''name'', JString (Name u)),
           (''lastname'', JString (Lastname u)),
           (''birth_date'', JString bd),
           (''phone'', JString (Phone u))]))"

definition Event_json :: "('u, 't) lib \<Rightarrow> ('u, 't) Event \<Rightarrow> error + json" where
  "Event_json L e =
     (case time_MarshalJSON L (TS e) of
        Inl err \<Rightarrow> Inl err
      | Inr ts \<Rightarrow>
         (case User_json L (Payload e) of
            Inl err \<Rightarrow> Inl err
          | Inr p \<Rightarrow> Inr (JObject
              [(''event_id'', JString (uuid_String L (Id e))),
               (''time_stamp'', JString ts),
               (''event_action'', JString (Method e)),
               (''user_id'', JString (UserID e)),
               (''user_payload'', p)])))"

definition json_Marshal :: "('u, 't) lib \<Rightarrow> ('u, 't) Event \<Rightarrow> error + bytes" where
  "json_Marshal L e =
     (case Event_json L e of Inl err \<Rightarrow> Inl err | Inr j \<Rightarrow> Inr (json_bytes L j))"

subsection \<open>Go channels\<close>

text \<open>
  A buffered Go channel: a send on a closed channel panics, a send on a full buffer
  blocks, a receive takes the oldest element, a receive on a closed and empty channel
  gives the zero value, and closing a closed channel panics.
\<close>

record 'a chan =
  buf :: "'a list"
  cap :: nat
  closed :: bool

datatype 'a send_result = Sent "'a chan" | SendBlocks | SendPanics

datatype 'a recv_result = Received 'a "'a chan" | RecvBlocks

definition make_chan :: "nat \<Rightarrow> 'a chan" where
  "make_chan n = \<lparr>buf = [], cap = n, closed = False\<rparr>"

definition chan_send :: "'a chan \<Rightarrow> 'a \<Rightarrow> 'a send_result" where
  "chan_send c x =
     (if closed c then SendPanics
      else if length (buf c) < cap c then Sent (c\<lparr>buf := buf c @ [x]\<rparr>)
      else SendBlocks)"

definition chan_recv :: "'a \<Rightarrow> 'a chan \<Rightarrow> 'a recv_result" where
  "chan_recv zero c =
     (case buf c of
        x # xs \<Rightarrow> Received x (c\<lparr>buf := xs\<rparr>)
      | [] \<Rightarrow> if closed c then Received zero c else RecvBlocks)"

definition chan_close :: "'a chan \<Rightarrow> 'a chan option" where
  "chan_close c = (if closed c then None else Some (c\<lparr>closed := True\<rparr>))"

subsection \<open>The AMQP client and the broker\<close>

text \<open>
  \<open>amqp091.Publishing\<close> with the fields \<open>publish\<close> sets, one call of
  \<open>Channel.PublishWithContext(ctx, exchange, key, mandatory, immediate, msg)\<close>, and
  \<open>amqp091.Delivery\<close> with the fields the consumer reads. \<open>amqp091.Persistent\<close> is
  the delivery mode 2.
\<close>

record 't Publishing =
  ContentType :: string
  DeliveryMode :: nat
  MessageId :: string
  Timestamp :: 't
  Type :: string
  Body :: bytes

definition Persistent :: nat where
  "Persistent = 2"

record 't publish_call =
  pc_exchange :: string
  pc_key :: string
  pc_mandatory :: bool
  pc_immediate :: bool
  pc_msg :: "'t Publishing"

record Delivery =
  RoutingKey :: string
  DeliveryBody :: bytes
  Redelivered :: bool

definition zero_Delivery :: Delivery where
  "zero_Delivery = \<lparr>RoutingKey = [], DeliveryBody = [], Redelivered = False\<rparr>"

text \<open>
  The broker, as AMQP 0-9-1 and the client library document it. Exchanges and queues are
  kept with the properties they were declared with, bindings are triples (queue, routing
  key, exchange), \<open>gen\<close> counts the queues the broker has named itself, and \<open>ready\<close>
  holds the messages waiting in each queue.
\<close>

record exchange_props =
  x_kind :: string
  x_durable :: bool
  x_autoDelete :: bool
  x_internal :: bool

record queue_props =
  q_durable :: bool
  q_autoDelete :: bool
  q_exclusive :: bool

record broker =
  exchanges :: "string \<rightharpoonup> exchange_props"
  queues :: "string \<rightharpoonup> queue_props"
  bindings :: "(string \<times> string \<times> string) set"
  gen :: nat
  ready :: "string \<Rightarrow> Delivery list"

text \<open>
  One \<open>amqp091.Channel\<close>: whether it is closed, the queue it declared last (the queue an
  empty queue name refers to), the prefetch count set by \<open>Qos\<close>, its consumers (queue,
  autoAck) and the deliveries it holds unacknowledged. The channel that publishes also
  captures its calls: \<open>calls\<close> holds every invocation of \<open>PublishWithContext\<close> in
  order, and \<open>faults\<close> is the environment, what the broker and the network answer to the
  n-th invocation.
\<close>

record amqp_channel =
  ch_closed :: bool
  last_queue :: "string option"
  prefetch :: nat
  consumers :: "(string \<times> bool) list"
  unacked :: "(string \<times> Delivery) list"

record 't pub_channel = amqp_channel +
  calls :: "'t publish_call list"
  faults :: "nat \<Rightarrow> error option"

definition open_channel :: amqp_channel where
  "open_channel =
     \<lparr>ch_closed = False, last_queue = None, prefetch = 0, consumers = [], unacked = []\<rparr>"

definition open_pub_channel :: "(nat \<Rightarrow> error option) \<Rightarrow> 't pub_channel" where
  "open_pub_channel f =
     \<lparr>ch_closed = False, last_queue = None, prefetch = 0, consumers = [], unacked = [],
      calls = [], faults = f\<rparr>"

definition empty_broker :: broker where
  "empty_broker =
     \<lparr>exchanges = Map.empty, queues = Map.empty, bindings = {}, gen = 0,
      ready = (\<lambda>q. [])\<rparr>"

text \<open>
  A channel-level error of the broker closes the channel; a closed channel answers
  \<open>ErrClosed\<close>. Names that start with \<open>amq.\<close> are reserved, and the default exchange
  (the empty name) cannot be declared.
\<close>

definition channel_exception ::
  "string \<Rightarrow> 'z amqp_channel_scheme \<Rightarrow> error \<times> 'z amqp_channel_scheme" where
  "channel_exception reason ch = (AmqpError reason, ch\<lparr>ch_closed := True\<rparr>)"

definition reserved_name :: "string \<Rightarrow> bool" where
  "reserved_name n \<longleftrightarrow> take 4 n = ''amq.''"

text \<open>
  \<open>Channel.ExchangeDeclare(name, kind, durable, autoDelete, internal, noWait, args)\<close>;
  every call of the program passes \<open>noWait = false\<close> and \<open>args = nil\<close>. Declaring an
  exchange that exists with the same properties succeeds and changes nothing; with other
  properties it is refused.
\<close>

definition ExchangeDeclare ::
  "string \<Rightarrow> string \<Rightarrow> bool \<Rightarrow> bool \<Rightarrow> bool \<Rightarrow> 'z amqp_channel_scheme \<Rightarrow> broker \<Rightarrow>
   error option \<times> 'z amqp_channel_scheme \<times> broker" where
  "ExchangeDeclare name kind durable autoDelete internal ch b =
     (let props = \<lparr>x_kind = kind, x_durable = durable, x_autoDelete = autoDelete,
                    x_internal = internal\<rparr>
      in if ch_closed ch then (Some ErrClosed, ch, b)
         else if name = [] then
           (case channel_exception ''ACCESS_REFUSED'' ch of (err, ch') \<Rightarrow> (Some err, ch', b))
         else
           (case exchanges b name of
              Some p \<Rightarrow>
                if p = props then (None, ch, b)
                else (case channel_exception ''PRECONDITION_FAILED'' ch of
                        (err, ch') \<Rightarrow> (Some err, ch', b))
            | None \<Rightarrow>
                if reserved_name name then
                  (case channel_exception ''ACCESS_REFUSED'' ch of
                     (err, ch') \<Rightarrow> (Some err, ch', b))
                else (None, ch, b\<lparr>exchanges := (exchanges b)(name \<mapsto> props)\<rparr>)))"

text \<open>
  \<open>Channel.QueueDeclare(name, durable, autoDelete, exclusive, noWait, args)\<close> returns the
  queue with its name. For the empty name the broker creates a queue under a name of its
  own, which no other queue has.
\<close>

definition gen_name :: "nat \<Rightarrow> string" where
  "gen_name n = ''amq.gen-'' @ replicate n (CHR ''I'')"

definition QueueDeclare ::
  "string \<Rightarrow> bool \<Rightarrow> bool \<Rightarrow> bool \<Rightarrow> 'z amqp_channel_scheme \<Rightarrow> broker \<Rightarrow>
   (error + string) \<times> 'z amqp_channel_scheme \<times> broker" where
  "QueueDeclare name durable autoDelete exclusive ch b =
     (let props = \<lparr>q_durable = durable, q_autoDelete = autoDelete, q_exclusive = exclusive\<rparr>
      in if ch_closed ch then (Inl ErrClosed, ch, b)
         else if name = [] then
           (Inr (gen_name (gen b)), ch\<lparr>last_queue := Some (gen_name (gen b))\<rparr>,
            b\<lparr>queues := (queues b)(gen_name (gen b) \<mapsto> props), gen := Suc (gen b)\<rparr>)
         else
           (case queues b name of
              Some p \<Rightarrow>
                if p = props then (Inr name, ch\<lparr>last_queue := Some name\<rparr>, b)
                else (case channel_exception ''PRECONDITION_FAILED'' ch of
                        (err, ch') \<Rightarrow> (Inl err, ch', b))
            | None \<Rightarrow>
                if reserved_name name then
                  (case channel_exception ''ACCESS_REFUSED'' ch of
                     (err, ch') \<Rightarrow> (Inl err, ch', b))
                else (Inr name, ch\<lparr>last_queue := Some name\<rparr>,
                      b\<lparr>queues := (queues b)(name \<mapsto> props)\<rparr>)))"

definition resolve_queue :: "string \<Rightarrow> 'z amqp_channel_scheme \<Rightarrow> string option" where
  "resolve_queue name ch = (if name = [] then last_queue ch else Some name)"

text \<open>
  \<open>Channel.QueueBind(name, key, exchange, noWait, args)\<close>: queue and exchange must exist;
  a binding that is there already stays as it is.
\<close>

definition QueueBind ::
  "string \<Rightarrow> string \<Rightarrow> string \<Rightarrow> 'z amqp_channel_scheme \<Rightarrow> broker \<Rightarrow>
   error option \<times> 'z amqp_channel_scheme \<times> broker" where
  "QueueBind name key exchange ch b =
     (if ch_closed ch then (Some ErrClosed, ch, b)
      else
        (case resolve_queue name ch of
           None \<Rightarrow>
             (case channel_exception ''NOT_FOUND'' ch of (err, ch') \<Rightarrow> (Some err, ch', b))
         | Some q \<Rightarrow>
             if queues b q = None \<or> exchanges b exchange = None then
               (case channel_exception ''NOT_FOUND'' ch of (err, ch') \<Rightarrow> (Some err, ch', b))
             else (None, ch, b\<lparr>bindings := insert (q, key, exchange) (bindings b)\<rparr>)))"

text \<open>\<open>Channel.Qos(prefetchCount, prefetchSize, global)\<close>.\<close>

definition Qos ::
  "nat \<Rightarrow> 'z amqp_channel_scheme \<Rightarrow> error option \<times> 'z amqp_channel_scheme" where
  "Qos n ch = (if ch_closed ch then (Some ErrClosed, ch) else (None, ch\<lparr>prefetch := n\<rparr>))"

text \<open>
  \<open>Channel.Consume(queue, consumer, autoAck, exclusive, noLocal, noWait, args)\<close> registers
  a consumer and returns the Go channel of its deliveries.
\<close>

definition Consume ::
  "string \<Rightarrow> bool \<Rightarrow> 'z amqp_channel_scheme \<Rightarrow> broker \<Rightarrow>
   (error + Delivery chan) \<times> 'z amqp_channel_scheme" where
  "Consume name autoAck ch b =
     (if ch_closed ch then (Inl ErrClosed, ch)
      else
        (case resolve_queue name ch of
           None \<Rightarrow> (case channel_exception ''NOT_FOUND'' ch of (err, ch') \<Rightarrow> (Inl err, ch'))
         | Some q \<Rightarrow>
             if queues b q = None then
               (case channel_exception ''NOT_FOUND'' ch of (err, ch') \<Rightarrow> (Inl err, ch'))
             else (Inr (make_chan 0), ch\<lparr>consumers := consumers ch @ [(q, autoAck)]\<rparr>)))"

text \<open>
  \<open>PublishWithContext\<close> on the capturing channel, and \<open>Channel.Close\<close>. When a channel
  closes, the broker puts the deliveries the channel had not acknowledged back into their
  queues, marked as redelivered.
\<close>

definition PublishWithContext ::
  "'t publish_call \<Rightarrow> 't pub_channel \<Rightarrow> error option \<times> 't pub_channel" where
  "PublishWithContext c ch =
     ((if ch_closed ch then Some ErrClosed else faults ch (length (calls ch))),
      ch\<lparr>calls := calls ch @ [c]\<rparr>)"

definition Channel_Close :: "'z amqp_channel_scheme \<Rightarrow> 'z amqp_channel_scheme" where
  "Channel_Close ch = ch\<lparr>ch_closed := True, unacked := []\<rparr>"

fun requeue :: "(string \<times> Delivery) list \<Rightarrow> broker \<Rightarrow> broker" where
  "requeue [] b = b"
| "requeue ((q, m) # ms) b =
     requeue ms (b\<lparr>ready := (ready b)(q := ready b q @ [m\<lparr>Redelivered := True\<rparr>])\<rparr>)"

text \<open>
  The broker hands the next waiting message to the channel's first consumer. With autoAck
  the message leaves the broker at once; otherwise it is kept as unacknowledged, and no
  more than \<open>prefetch\<close> deliveries are outstanding (0 is no limit).
\<close>

definition broker_deliver ::
  "'z amqp_channel_scheme \<Rightarrow> broker \<Rightarrow> (Delivery \<times> 'z amqp_channel_scheme \<times> broker) option" where
  "broker_deliver ch b =
     (if ch_closed ch then None
      else
        (case consumers ch of
           [] \<Rightarrow> None
         | (q, autoAck) # _ \<Rightarrow>
             (case ready b q of
                [] \<Rightarrow> None
              | m # ms \<Rightarrow>
                  if autoAck then Some (m, ch, b\<lparr>ready := (ready b)(q := ms)\<rparr>)
                  else if prefetch ch = 0 \<or> length (unacked ch) < prefetch ch then
                    Some (m, ch\<lparr>unacked := unacked ch @ [(q, m)]\<rparr>,
                          b\<lparr>ready := (ready b)(q := ms)\<rparr>)
                  else None)))"

section \<open>Package mq: the event queue and the publisher worker\<close>

definition bufferSize :: nat where
  "bufferSize = 128"

definition MethodPost :: string where
  "MethodPost = ''POST''"

definition MethodPut :: string where
  "MethodPut = ''PUT''"

definition MethodDelete :: string where
  "MethodDelete = ''DELETE''"

text \<open>
  \<open>RabbitMQ.Init\<close>: declare the durable exchange (on an error the channel is closed),
  declare the durable queue, and bind the queue under the name the broker returned, once
  for each of the three routing keys. The first error ends it.
\<close>

fun mq_bind ::
  "string \<Rightarrow> string \<Rightarrow> string list \<Rightarrow> 'z amqp_channel_scheme \<Rightarrow> broker \<Rightarrow>
   error option \<times> 'z amqp_channel_scheme \<times> broker" where
  "mq_bind qname exchange [] ch b = (None, ch, b)"
| "mq_bind qname exchange (rk # rks) ch b =
     (case QueueBind qname rk exchange ch b of
        (Some err, ch', b') \<Rightarrow> (Some err, ch', b')
      | (None, ch', b') \<Rightarrow> mq_bind qname exchange rks ch' b')"

definition mq_Init ::
  "MQ \<Rightarrow> 'z amqp_channel_scheme \<Rightarrow> broker \<Rightarrow> error option \<times> 'z amqp_channel_scheme \<times> broker" where
  "mq_Init cfg ch b =
     (case ExchangeDeclare (Exchange cfg) (ExchangeType cfg) True False False ch b of
        (Some err, ch1, b1) \<Rightarrow> (Some err, Channel_Close ch1, requeue (unacked ch1) b1)
      | (None, ch1, b1) \<Rightarrow>
          (case QueueDeclare (QueueName cfg) True False False ch1 b1 of
             (Inl err, ch2, b2) \<Rightarrow> (Some err, ch2, b2)
           | (Inr qname, ch2, b2) \<Rightarrow>
               mq_bind qname (Exchange cfg) [MethodPost, MethodPut, MethodDelete] ch2 b2))"

definition zero_User :: "('u, 't) lib \<Rightarrow> ('u, 't) User" where
  "zero_User L = \<lparr>UUID = uuid_Nil L, Email = [], Name = [], Lastname = [],
                  BirthDate = time_Zero L, Phone = []\<rparr>"

definition zero_Event :: "('u, 't) lib \<Rightarrow> ('u, 't) Event" where
  "zero_Event L = \<lparr>Id = uuid_Nil L, TS = time_Zero L, Method = [], UserID = [],
                   Payload = zero_User L\<rparr>"

text \<open>
  \<open>RabbitMQ.publish\<close>: marshal, build the \<open>Publishing\<close>, call the channel. A marshal
  error returns before the channel is called.
\<close>

definition publishing_of :: "('u, 't) lib \<Rightarrow> ('u, 't) Event \<Rightarrow> bytes \<Rightarrow> 't Publishing" where
  "publishing_of L e b =
     \<lparr>ContentType = ''application/json'',
      DeliveryMode = Persistent,
      MessageId = uuid_String L (Id e),
      Timestamp = TS e,
      Type = Method e,
      Body = b\<rparr>"

definition publish ::
  "('u, 't) lib \<Rightarrow> MQ \<Rightarrow> ('u, 't) Event \<Rightarrow> 't pub_channel \<Rightarrow> error option \<times> 't pub_channel" where
  "publish L cfg e ch =
     (case json_Marshal L e of
        Inl err \<Rightarrow> (Some err, ch)
      | Inr b \<Rightarrow>
          PublishWithContext
            \<lparr>pc_exchange = Exchange cfg, pc_key = Method e, pc_mandatory = True,
             pc_immediate = False, pc_msg = publishing_of L e b\<rparr> ch)"

text \<open>
  The state the publisher worker and the producers share: the queue \<open>r.in\<close>, the
  channel \<open>r.pubCh\<close>, the logger, whether the shared context is cancelled, and where
  the worker goroutine is. \<open>accepted\<close> is a history variable: the events whose send
  on \<open>r.in\<close> has completed, in order.
\<close>

datatype task_status = Running | Returned | Panicked

record ('u, 't) publisher =
  inq :: "('u, 't) Event chan"
  pubCh :: "'t pub_channel"
  plog :: "log_entry list"
  ctx_done :: bool
  pstatus :: task_status
  accepted :: "('u, 't) Event list"

text \<open>
  \<open>mq.New\<close> followed by the entry of \<open>PublisherWorker\<close> into its loop (the start-up
  line is logged).
\<close>

definition New_publisher :: "(nat \<Rightarrow> error option) \<Rightarrow> ('u, 't) publisher" where
  "New_publisher f =
     \<lparr>inq = make_chan bufferSize,
      pubCh = open_pub_channel f,
      plog = [Info ''starting publisher worker ''],
      ctx_done = False,
      pstatus = Running,
      accepted = []\<rparr>"

text \<open>
  One iteration of the \<open>for { select { ... } }\<close> loop of \<open>PublisherWorker\<close>. Go's
  \<open>select\<close> chooses among the ready cases at random; \<open>pick\<close> is that choice and is
  consulted only when both cases are ready. With no case ready the goroutine stays
  suspended.
\<close>

datatype select_pick = PickRecv | PickDone

definition case_recv ::
  "('u, 't) lib \<Rightarrow> MQ \<Rightarrow> ('u, 't) Event \<Rightarrow> ('u, 't) Event chan \<Rightarrow>
   ('u, 't) publisher \<Rightarrow> ('u, 't) publisher" where
  \<comment> \<open>\<open>case e := <-r.in\<close>; \<open>q\<close> is the queue after the receive.\<close>
  "case_recv L cfg e q s =
     (case publish L cfg e (pubCh s) of
        (None, ch) \<Rightarrow> s\<lparr>inq := q, pubCh := ch\<rparr>
      | (Some err, ch) \<Rightarrow>
          s\<lparr>inq := q, pubCh := ch, plog := plog s @ [Error ''mq publish error'' err]\<rparr>)"

definition case_done :: "('u, 't) publisher \<Rightarrow> ('u, 't) publisher" where
  \<comment> \<open>\<open>case <-ctx.Done()\<close>: close the queue, close the channel, return (the deferred
      log line runs).\<close>
  "case_done s =
     (case chan_close (inq s) of
        None \<Rightarrow> s\<lparr>pstatus := Panicked\<rparr>
      | Some q \<Rightarrow>
          s\<lparr>inq := q, pubCh := Channel_Close (pubCh s),
            plog := plog s @ [Info ''publisher worker gracefully stopped''],
            pstatus := Returned\<rparr>)"

definition PublisherWorker_iter ::
  "('u, 't) lib \<Rightarrow> MQ \<Rightarrow> select_pick \<Rightarrow> ('u, 't) publisher \<Rightarrow> ('u, 't) publisher" where
  "PublisherWorker_iter L cfg pick s =
     (if pstatus s \<noteq> Running then s
      else
        (case chan_recv (zero_Event L) (inq s) of
           Received e q \<Rightarrow>
             if ctx_done s \<and> pick = PickDone then case_done s
             else case_recv L cfg e q s
         | RecvBlocks \<Rightarrow>
             if ctx_done s then case_done s else s))"

text \<open>
  What can happen to the shared state: a producer executes \<open>GetInputChan() <- e\<close>
  (\<open>UserService.CreateUser\<close>, \<open>UpdateUser\<close>, \<open>DeleteUser\<close>), the context is
  cancelled, or the worker runs one iteration. A send that blocks leaves the state as it
  is (the producer stays suspended); a send that panics unwinds the producer and leaves
  the queue as it is.
\<close>

datatype ('u, 't) action =
    Send "('u, 't) Event"
  | Cancel
  | Worker select_pick

definition enqueue :: "('u, 't) Event \<Rightarrow> ('u, 't) publisher \<Rightarrow> ('u, 't) publisher" where
  "enqueue e s =
     (case chan_send (inq s) e of
        Sent q \<Rightarrow> s\<lparr>inq := q, accepted := accepted s @ [e]\<rparr>
      | SendBlocks \<Rightarrow> s
      | SendPanics \<Rightarrow> s)"

fun step ::
  "('u, 't) lib \<Rightarrow> MQ \<Rightarrow> ('u, 't) action \<Rightarrow> ('u, 't) publisher \<Rightarrow> ('u, 't) publisher" where
  "step L cfg (Send e) s = enqueue e s"
| "step L cfg Cancel s = s\<lparr>ctx_done := True\<rparr>"
| "step L cfg (Worker pick) s = PublisherWorker_iter L cfg pick s"

definition run ::
  "('u, 't) lib \<Rightarrow> MQ \<Rightarrow> ('u, 't) action list \<Rightarrow> ('u, 't) publisher \<Rightarrow> ('u, 't) publisher" where
  "run L cfg acts s = foldl (\<lambda>s a. step L cfg a s) s acts"

section \<open>Package rmqconsumer: the consumer worker\<close>

definition preFetchCount :: nat where
  "preFetchCount = 1"

text \<open>
  The consumer with its surroundings: the fields of \<open>Consumer\<close> (\<open>cfg\<close>, \<open>log\<close>,
  \<open>chConsume\<close>, \<open>chDelivery\<close>, which is nil until \<open>Init\<close> sets it), the
  package-level variable \<open>err\<close>, standard output, the shared context, where the worker
  goroutine is, and the broker. \<open>arrived\<close> and \<open>handled\<close> are history variables: the
  messages that entered the broker's queues (with the queue), and the deliveries given to
  the handler.
\<close>

record consumer =
  c_cfg :: MQ
  c_log :: "log_entry list"
  chConsume :: amqp_channel
  chDelivery :: "Delivery chan option"
  err_var :: "error option"
  stdout :: "string list"
  c_ctx_done :: bool
  c_status :: task_status
  c_broker :: broker
  arrived :: "(string \<times> Delivery) list"
  handled :: "Delivery list"

definition New_consumer :: "MQ \<Rightarrow> broker \<Rightarrow> consumer" where
  "New_consumer cfg b =
     \<lparr>c_cfg = cfg, c_log = [], chConsume = open_channel, chDelivery = None, err_var = None,
      stdout = [], c_ctx_done = False, c_status = Running, c_broker = b,
      arrived = [], handled = []\<rparr>"

text \<open>
  \<open>Consumer.Init\<close>: the same declarations as \<open>RabbitMQ.Init\<close>, with the binding made
  under the configured queue name, then \<open>Qos(preFetchCount, 0, false)\<close> and
  \<open>Consume(queue, "", true, false, false, false, nil)\<close>, whose third argument is autoAck.
  Each result is stored in the package-level \<open>err\<close> (the result of \<open>Consume\<close> in a
  local), and the first error is returned wrapped.
\<close>

fun consumer_bind ::
  "string \<Rightarrow> string \<Rightarrow> string list \<Rightarrow> consumer \<Rightarrow> error option \<times> consumer" where
  "consumer_bind qname exchange [] c = (None, c)"
| "consumer_bind qname exchange (rk # rks) c =
     (case QueueBind qname rk exchange (chConsume c) (c_broker c) of
        (Some err, ch, b) \<Rightarrow>
          (Some (Errorf (''queue bind '' @ rk) err),
           c\<lparr>chConsume := ch, c_broker := b, err_var := Some err\<rparr>)
      | (None, ch, b) \<Rightarrow>
          consumer_bind qname exchange rks (c\<lparr>chConsume := ch, c_broker := b, err_var := None\<rparr>))"

definition consumer_subscribe :: "consumer \<Rightarrow> error option \<times> consumer" where
  \<comment> \<open>The end of \<open>Init\<close>: \<open>Qos\<close> and \<open>Consume\<close>.\<close>
  "consumer_subscribe c =
     (case Qos preFetchCount (chConsume c) of
        (Some err, ch) \<Rightarrow> (Some (Errorf ''qos'' err), c\<lparr>chConsume := ch, err_var := Some err\<rparr>)
      | (None, ch) \<Rightarrow>
          (case Consume (QueueName (c_cfg c)) True ch (c_broker c) of
             (Inl cerr, ch') \<Rightarrow>
               (Some (Errorf ''consume'' cerr),
                c\<lparr>chConsume := ch', chDelivery := None, err_var := None\<rparr>)
           | (Inr d, ch') \<Rightarrow>
               (None, c\<lparr>chConsume := ch', chDelivery := Some d, err_var := None\<rparr>)))"

definition Consumer_Init :: "consumer \<Rightarrow> error option \<times> consumer" where
  "Consumer_Init c =
     (case ExchangeDeclare (Exchange (c_cfg c)) (ExchangeType (c_cfg c)) True False False
             (chConsume c) (c_broker c) of
        (Some err, ch1, b1) \<Rightarrow>
          (Some (Errorf ''exchange declare'' err),
           c\<lparr>chConsume := ch1, c_broker := b1, err_var := Some err\<rparr>)
      | (None, ch1, b1) \<Rightarrow>
          (case QueueDeclare (QueueName (c_cfg c)) True False False ch1 b1 of
             (Inl err, ch2, b2) \<Rightarrow>
               (Some (Errorf ''queue declare'' err),
                c\<lparr>chConsume := ch2, c_broker := b2, err_var := Some err\<rparr>)
           | (Inr q, ch2, b2) \<Rightarrow>
               (case consumer_bind (QueueName (c_cfg c)) (Exchange (c_cfg c))
                       [MethodPost, MethodPut, MethodDelete]
                       (c\<lparr>chConsume := ch2, c_broker := b2, err_var := None\<rparr>) of
                  (Some err, c') \<Rightarrow> (Some err, c')
                | (None, c') \<Rightarrow> consumer_subscribe c')))"

text \<open>
  \<open>Consumer.delivery\<close>: the switch on the routing key leaves \<open>action\<close> empty when no
  case matches; one line goes to standard output; the result is always nil. The line
  written and the result are returned.
\<close>

definition action_label :: "string \<Rightarrow> string" where
  "action_label rk =
     (if rk = MethodPost then ''UserCreated''
      else if rk = MethodPut then ''UserUpdated''
      else if rk = MethodDelete then ''UserDeleted''
      else [])"

definition delivery :: "Delivery \<Rightarrow> string \<times> error option" where
  "delivery msg =
     (''Action='' @ action_label (RoutingKey msg) @ '' EventBody='' @ DeliveryBody msg
        @ [CHR 0x0A],
      None)"

text \<open>
  One iteration of the loop of \<open>DeliveryWorker\<close>, over the handler it calls, and the
  worker itself, which calls \<open>delivery\<close>. A receive from a nil channel blocks; when the
  channel closes, the library closes the Go channel of its deliveries.
\<close>

definition c_case_recv ::
  "(Delivery \<Rightarrow> string \<times> error option) \<Rightarrow> Delivery \<Rightarrow> Delivery chan \<Rightarrow> consumer \<Rightarrow> consumer" where
  "c_case_recv h msg d c =
     (case h msg of
        (line, None) \<Rightarrow>
          c\<lparr>chDelivery := Some d, stdout := stdout c @ [line], err_var := None,
            handled := handled c @ [msg]\<rparr>
      | (line, Some e) \<Rightarrow>
          c\<lparr>chDelivery := Some d, stdout := stdout c @ [line], err_var := Some e,
            handled := handled c @ [msg],
            c_log := c_log c @ [Error ''mq read message error'' e]\<rparr>)"

definition c_case_done :: "consumer \<Rightarrow> consumer" where
  "c_case_done c =
     c\<lparr>chConsume := Channel_Close (chConsume c),
       c_broker := requeue (unacked (chConsume c)) (c_broker c),
       chDelivery := map_option (\<lambda>d. d\<lparr>closed := True\<rparr>) (chDelivery c),
       c_log := c_log c @ [Info ''delivery worker gracefully stopped''],
       c_status := Returned\<rparr>"

definition DeliveryWorker_iter_with ::
  "(Delivery \<Rightarrow> string \<times> error option) \<Rightarrow> select_pick \<Rightarrow> consumer \<Rightarrow> consumer" where
  "DeliveryWorker_iter_with h pick c =
     (if c_status c \<noteq> Running then c
      else
        (case (case chDelivery c of
                 None \<Rightarrow> RecvBlocks
               | Some d \<Rightarrow> chan_recv zero_Delivery d) of
           Received msg d \<Rightarrow>
             if c_ctx_done c \<and> pick = PickDone then c_case_done c
             else c_case_recv h msg d c
         | RecvBlocks \<Rightarrow>
             if c_ctx_done c then c_case_done c else c))"

definition DeliveryWorker_enter :: "consumer \<Rightarrow> consumer" where
  \<comment> \<open>The line logged before the loop.\<close>
  "DeliveryWorker_enter c = c\<lparr>c_log := c_log c @ [Info ''starting delivery worker'']\<rparr>"

definition DeliveryWorker_iter :: "select_pick \<Rightarrow> consumer \<Rightarrow> consumer" where
  "DeliveryWorker_iter pick c = DeliveryWorker_iter_with delivery pick c"

text \<open>
  What can happen around the consumer: a message is routed into a queue, the broker hands
  a message to the consumer (the library keeps it ready on the Go channel), the context is
  cancelled, or the worker runs one iteration.
\<close>

datatype c_action =
    Arrive string Delivery
  | Deliver
  | CCancel
  | CWorker select_pick

definition c_arrive :: "string \<Rightarrow> Delivery \<Rightarrow> consumer \<Rightarrow> consumer" where
  "c_arrive q m c =
     c\<lparr>c_broker := (c_broker c)\<lparr>ready := (ready (c_broker c))(q := ready (c_broker c) q @ [m])\<rparr>,
       arrived := arrived c @ [(q, m)]\<rparr>"

definition c_deliver :: "consumer \<Rightarrow> consumer" where
  "c_deliver c =
     (case chDelivery c of
        None \<Rightarrow> c
      | Some d \<Rightarrow>
          (case broker_deliver (chConsume c) (c_broker c) of
             None \<Rightarrow> c
           | Some (m, ch, b) \<Rightarrow>
               c\<lparr>chConsume := ch, c_broker := b, chDelivery := Some (d\<lparr>buf := buf d @ [m]\<rparr>)\<rparr>))"

fun c_step ::
  "(Delivery \<Rightarrow> string \<times> error option) \<Rightarrow> c_action \<Rightarrow> consumer \<Rightarrow> consumer" where
  "c_step h (Arrive q m) c = c_arrive q m c"
| "c_step h Deliver c = c_deliver c"
| "c_step h CCancel c = c\<lparr>c_ctx_done := True\<rparr>"
| "c_step h (CWorker pick) c = DeliveryWorker_iter_with h pick c"

definition c_run ::
  "(Delivery \<Rightarrow> string \<times> error option) \<Rightarrow> c_action list \<Rightarrow> consumer \<Rightarrow> consumer" where
  "c_run h acts c = foldl (\<lambda>c a. c_step h a c) c acts"

section \<open>The lifecycle orchestrator\<close>

text \<open>
  \<open>App.Run\<close> starts the three tasks in an \<open>errgroup\<close>, waits for the shared context to
  be cancelled, shuts the HTTP server down and joins the group. The model gives what
  \<open>Run\<close> does, in order, and what it returns, from what the environment answers:
  \<open>listen_result\<close> is what \<open>ListenAndServe\<close> returns and \<open>shutdown_result\<close> what
  \<open>Shutdown\<close> returns. \<open>Group_Wait\<close> is \<open>g.Wait()\<close>, the only operation of \<open>Run\<close>
  that blocks until the tasks of the group have returned. \<open>NewApp\<close> always sets
  \<open>httpSrv\<close>, so \<open>a.httpSrv != nil\<close> holds.
\<close>

datatype run_event =
    Go_HTTP
  | Go_PublisherWorker
  | Go_DeliveryWorker
  | Ctx_Done
  | Log log_entry
  | Http_Shutdown
  | Group_Wait

record run_env =
  listen_result :: "error option"
  shutdown_result :: "error option"

definition http_task :: "string \<Rightarrow> run_env \<Rightarrow> error option" where
  \<comment> \<open>The first task of the group; the two worker tasks return nil.\<close>
  "http_task name env =
     (case listen_result env of
        None \<Rightarrow> None
      | Some e \<Rightarrow>
          if e = ErrServerClosed then None
          else Some (Errorf (''http server '' @ name @ '' error'') e))"

definition Run :: "string \<Rightarrow> run_env \<Rightarrow> run_event list \<times> error option" where
  "Run name env =
     (let started =
            [Go_HTTP, Go_PublisherWorker, Go_DeliveryWorker, Ctx_Done,
             Log (Info (''shutting down '' @ name @ '' gracefully...'')), Http_Shutdown]
      in case shutdown_result env of
           Some err \<Rightarrow>
             (started @ [Log (Error (''http server shutdown '' @ name @ '' error'') err)],
              Some err)
         | None \<Rightarrow>
             (case http_task name env of
                Some err \<Rightarrow>
                  (started @ [Group_Wait, Log (Error (name @ '' returning an error'') err)],
                   Some err)
              | None \<Rightarrow>
                  (started @ [Group_Wait, Log (Info (name @ '' gracefully stopped''))],
                   None)))"

definition main_exit_code :: "error option \<Rightarrow> nat" where
  \<comment> \<open>\<open>main\<close>: \<open>os.Exit(1)\<close> when \<open>Run\<close> returns an error.\<close>
  "main_exit_code r = (case r of None \<Rightarrow> 0 | Some err \<Rightarrow> 1)"

section \<open>Notions for the statements\<close>





text \<open>
  The call \<open>publish\<close> makes for an event that serialises, and the invariant of the
  publisher: the events accepted so far are the events dequeued followed by the events
  still in the queue, the captured calls are the calls for the dequeued events, and the
  queue is closed exactly when the worker has returned.
\<close>

definition request_of :: "('u, 't) lib \<Rightarrow> MQ \<Rightarrow> ('u, 't) Event \<Rightarrow> 't publish_call option" where
  "request_of L cfg e =
     (case json_Marshal L e of
        Inl err \<Rightarrow> None
      | Inr b \<Rightarrow>
          Some \<lparr>pc_exchange = Exchange cfg, pc_key = Method e, pc_mandatory = True,
                pc_immediate = False, pc_msg = publishing_of L e b\<rparr>)"

definition pinv :: "('u, 't) lib \<Rightarrow> MQ \<Rightarrow> ('u, 't) publisher \<Rightarrow> bool" where
  "pinv L cfg s \<longleftrightarrow>
     (\<exists>deq. accepted s = deq @ buf (inq s) \<and>
            calls (pubCh s) = List.map_filter (request_of L cfg) deq) \<and>
     (pstatus s = Running \<longrightarrow> \<not> closed (inq s)) \<and>
     (pstatus s = Returned \<longrightarrow> closed (inq s)) \<and>
     pstatus s \<noteq> Panicked"


text \<open>
  Concrete values: a library whose UUIDs are their text and whose times are a year with
  the RFC 3339 text, a configuration, two events that serialise and one that does not.
\<close>

definition test_lib :: "(string, nat \<times> string) lib" where
  "test_lib =
     \<lparr>uuid_String = (\<lambda>u. u),
      uuid_Nil = ''00000000-0000-0000-0000-000000000000'',
      time_Zero = (1, ''0001-01-01T00:00:00Z''),
      time_MarshalJSON = (\<lambda>(y, text).
         if 9999 < y then Inl (MarshalError ''Time.MarshalJSON: year outside of range [0,9999]'')
         else Inr text),
      json_bytes = (\<lambda>j. case j of JString x \<Rightarrow> x | JObject kvs \<Rightarrow> concat (map fst kvs))\<rparr>"

definition test_cfg :: MQ where
  "test_cfg =
     \<lparr>User = ''guest'', Password = ''guest'', Vhost = ''/'', Host = ''localhost'',
      AmqpPort = ''5672'', Exchange = ''users'', ExchangeType = ''direct'',
      QueueName = ''users.events''\<rparr>"

definition test_user :: "(string, nat \<times> string) User" where
  "test_user =
     \<lparr>UUID = ''u-1'', Email = ''a@b.c'', Name = ''Ann'', Lastname = ''Lee'',
      BirthDate = (1990, ''1990-01-01T00:00:00Z''), Phone = ''1''\<rparr>"

definition ev1 :: "(string, nat \<times> string) Event" where
  "ev1 = \<lparr>Id = ''e-1'', TS = (2025, ''2025-10-03T12:38:36Z''), Method = ''POST'',
          UserID = ''u-1'', Payload = test_user\<rparr>"

definition ev2 :: "(string, nat \<times> string) Event" where
  "ev2 = \<lparr>Id = ''e-2'', TS = (2025, ''2025-10-03T12:38:37Z''), Method = ''DELETE'',
          UserID = ''u-1'', Payload = test_user\<rparr>"


definition no_faults :: "nat \<Rightarrow> error option" where
  "no_faults n = None"

definition first_fails :: "nat \<Rightarrow> error option" where
  "first_fails n = (if n = 0 then Some (AmqpError ''connection reset'') else None)"

text \<open>
  The invariant of a consumer that subscribed to the queue \<open>q\<close> with autoAck, where
  \<open>r0\<close> is what waited in the queue at the subscription: the channel holds nothing
  unacknowledged, and the messages handled, those the library holds ready for the worker
  and those still waiting in the queue are, in this order, the messages that were or came
  into the queue. A handler that fails for the routing key \<open>POST\<close> serves as an example.
\<close>

definition arrivals :: "string \<Rightarrow> consumer \<Rightarrow> Delivery list" where
  "arrivals q c = map snd (filter (\<lambda>(q', m). q' = q) (arrived c))"

definition cinv :: "string \<Rightarrow> Delivery list \<Rightarrow> consumer \<Rightarrow> bool" where
  "cinv q r0 c \<longleftrightarrow>
     consumers (chConsume c) = [(q, True)] \<and> unacked (chConsume c) = [] \<and>
     (\<exists>d. chDelivery c = Some d \<and> (c_status c = Running \<longrightarrow> \<not> closed d) \<and>
          handled c @ buf d @ ready (c_broker c) q = r0 @ arrivals q c)"

definition failing_handler :: "Delivery \<Rightarrow> string \<times> error option" where
  "failing_handler msg =
     (fst (delivery msg),
      if RoutingKey msg = MethodPost then Some (AmqpError ''handler failed'') else None)"

definition post1 :: Delivery where
  "post1 = \<lparr>RoutingKey = ''POST'', DeliveryBody = ''{}'', Redelivered = False\<rparr>"

text \<open>
  Frame of the declarations on a consumer, and the topology of a configuration being in
  place: exchange and queue exist with the properties \<open>Init\<close> declares, and the queue is
  bound under the three routing keys. \<open>Init_twice\<close> runs \<open>RabbitMQ.Init\<close> a second time
  on what the first run left and gives both results with the broker after each.
\<close>

definition same_frame :: "consumer \<Rightarrow> consumer \<Rightarrow> bool" where
  "same_frame c c' \<longleftrightarrow>
     consumers (chConsume c') = consumers (chConsume c) \<and>
     unacked (chConsume c') = unacked (chConsume c) \<and>
     prefetch (chConsume c') = prefetch (chConsume c) \<and>
     ready (c_broker c') = ready (c_broker c) \<and>
     chDelivery c' = chDelivery c \<and> c_status c' = c_status c \<and>
     arrived c' = arrived c \<and> handled c' = handled c \<and> c_cfg c' = c_cfg c"

definition topology_declared :: "MQ \<Rightarrow> broker \<Rightarrow> bool" where
  "topology_declared cfg b \<longleftrightarrow>
     Exchange cfg \<noteq> [] \<and> QueueName cfg \<noteq> [] \<and>
     exchanges b (Exchange cfg) =
       Some \<lparr>x_kind = ExchangeType cfg, x_durable = True, x_autoDelete = False,
             x_internal = False\<rparr> \<and>
     queues b (QueueName cfg) =
       Some \<lparr>q_durable = True, q_autoDelete = False, q_exclusive = False\<rparr> \<and>
     (QueueName cfg, MethodPost, Exchange cfg) \<in> bindings b \<and>
     (QueueName cfg, MethodPut, Exchange cfg) \<in> bindings b \<and>
     (QueueName cfg, MethodDelete, Exchange cfg) \<in> bindings b"

definition Init_twice ::
  "MQ \<Rightarrow> 'z amqp_channel_scheme \<Rightarrow> broker \<Rightarrow>
   (error option \<times> 'z amqp_channel_scheme \<times> broker) \<times>
   (error option \<times> 'z amqp_channel_scheme \<times> broker)" where
  "Init_twice cfg ch b =
     (case mq_Init cfg ch b of
        (r1, ch1, b1) \<Rightarrow> ((r1, ch1, b1), mq_Init cfg ch1 b1))"

text \<open>
  More concrete values: the broker after the topology of \<open>test_cfg\<close> was declared, the
  consumer after its \<open>Init\<close> on it, and a configuration with an empty queue name.
\<close>

definition test_topology :: broker where
  "test_topology =
     \<lparr>exchanges = [''users'' \<mapsto> \<lparr>x_kind = ''direct'', x_durable = True,
                                 x_autoDelete = False, x_internal = False\<rparr>],
      queues = [''users.events'' \<mapsto> \<lparr>q_durable = True, q_autoDelete = False,
                                     q_exclusive = False\<rparr>],
      bindings = {(''users.events'', ''DELETE'', ''users''),
                  (''users.events'', ''PUT'', ''users''),
                  (''users.events'', ''POST'', ''users'')},
      gen = 0, ready = (\<lambda>q. [])\<rparr>"

definition subscribed :: consumer where
  "subscribed =
     \<lparr>c_cfg = test_cfg, c_log = [],
      chConsume = \<lparr>ch_closed = False, last_queue = Some ''users.events'', prefetch = 1,
                   consumers = [(''users.events'', True)], unacked = []\<rparr>,
      chDelivery = Some \<lparr>buf = [], cap = 0, closed = False\<rparr>, err_var = None,
      stdout = [], c_ctx_done = False, c_status = Running, c_broker = test_topology,
      arrived = [], handled = []\<rparr>"

definition unnamed_cfg :: MQ where
  "unnamed_cfg = test_cfg\<lparr>QueueName := []\<rparr>"

section \<open>The publisher: invariant and progress\<close>

lemma run_Nil: "run L cfg [] s = s"
  by (simp add: run_def)

lemma run_Cons: "run L cfg (a # acts) s = run L cfg acts (step L cfg a s)"
  by (simp add: run_def)

lemma run_append: "run L cfg (xs @ ys) s = run L cfg ys (run L cfg xs s)"
  by (simp add: run_def)

lemma publish_calls:
  "publish L cfg e ch = (r, ch') \<Longrightarrow>
   calls ch' = calls ch @ (case request_of L cfg e of None \<Rightarrow> [] | Some c \<Rightarrow> [c])"
  by (auto simp: publish_def request_of_def PublishWithContext_def split: sum.splits)

lemma map_filter_snoc:
  "List.map_filter f (xs @ [x]) =
   List.map_filter f xs @ (case f x of None \<Rightarrow> [] | Some c \<Rightarrow> [c])"
  by (simp add: List.map_filter_def split: option.splits)

lemma pinv_init: "pinv L cfg (New_publisher f)"
  by (simp add: pinv_def New_publisher_def make_chan_def open_pub_channel_def
      List.map_filter_def)

lemma pinv_case_done:
  assumes "pinv L cfg s" and "pstatus s = Running"
  shows "pinv L cfg (case_done s)"
  using assms by (auto simp: pinv_def case_done_def chan_close_def Channel_Close_def)

lemma pinv_case_recv:
  assumes "pinv L cfg s" and "pstatus s = Running" and "buf (inq s) = e # es"
  shows "pinv L cfg (case_recv L cfg e ((inq s)\<lparr>buf := es\<rparr>) s)"
proof -
  obtain r ch where p: "publish L cfg e (pubCh s) = (r, ch)"
    by (cases "publish L cfg e (pubCh s)")
  from assms obtain deq where d: "accepted s = deq @ e # es"
    "calls (pubCh s) = List.map_filter (request_of L cfg) deq"
    by (auto simp: pinv_def)
  have c: "calls ch = List.map_filter (request_of L cfg) (deq @ [e])"
    using publish_calls[OF p] d(2) by (simp add: map_filter_snoc)
  have a: "accepted s = (deq @ [e]) @ es" using d(1) by simp
  show ?thesis
    using assms(1,2) p a c by (cases r) (auto simp: pinv_def case_recv_def)
qed

lemma pinv_step:
  assumes "pinv L cfg s"
  shows "pinv L cfg (step L cfg a s)"
proof (cases a)
  case (Send e)
  then show ?thesis using assms
    by (auto simp: pinv_def enqueue_def chan_send_def split: if_splits)
next
  case Cancel
  then show ?thesis using assms by (auto simp: pinv_def)
next
  case (Worker pick)
  show ?thesis
  proof (cases "pstatus s = Running")
    case False
    then show ?thesis using assms Worker by (simp add: PublisherWorker_iter_def)
  next
    case True
    with assms have nc: "\<not> closed (inq s)" by (simp add: pinv_def)
    show ?thesis
    proof (cases "buf (inq s)")
      case Nil
      then show ?thesis using assms Worker True nc pinv_case_done[OF assms True]
        by (auto simp: PublisherWorker_iter_def chan_recv_def)
    next
      case (Cons e es)
      then show ?thesis
        using Worker True pinv_case_done[OF assms True] pinv_case_recv[OF assms True Cons]
        by (auto simp: PublisherWorker_iter_def chan_recv_def)
    qed
  qed
qed

lemma pinv_run: "pinv L cfg s \<Longrightarrow> pinv L cfg (run L cfg acts s)"
  by (induction acts arbitrary: s) (auto simp: run_Nil run_Cons intro: pinv_step)

lemma pinv_reachable: "pinv L cfg (run L cfg acts (New_publisher f))"
  by (rule pinv_run) (rule pinv_init)









lemma returned_step:
  assumes "pstatus s = Returned" and "closed (inq s)"
  shows "inq (step L cfg a s) = inq s \<and> pubCh (step L cfg a s) = pubCh s \<and>
         pstatus (step L cfg a s) = Returned \<and> accepted (step L cfg a s) = accepted s"
  using assms by (cases a) (simp_all add: enqueue_def chan_send_def PublisherWorker_iter_def)

lemma returned_run:
  assumes "pstatus s = Returned" and "closed (inq s)"
  shows "inq (run L cfg acts s) = inq s \<and> pubCh (run L cfg acts s) = pubCh s \<and>
         pstatus (run L cfg acts s) = Returned \<and> accepted (run L cfg acts s) = accepted s"
  using assms
proof (induction acts arbitrary: s)
  case Nil
  then show ?case by (simp add: run_Nil)
next
  case (Cons a acts)
  have st: "inq (step L cfg a s) = inq s \<and> pubCh (step L cfg a s) = pubCh s \<and>
         pstatus (step L cfg a s) = Returned \<and> accepted (step L cfg a s) = accepted s"
    by (rule returned_step[OF Cons.prems])
  then have "pstatus (step L cfg a s) = Returned" "closed (inq (step L cfg a s))"
    using Cons.prems by simp_all
  from Cons.IH[OF this] st show ?case by (simp add: run_Cons)
qed

lemma closed_iff_returned:
  "closed (inq (run L cfg acts (New_publisher f))) \<longleftrightarrow>
   pstatus (run L cfg acts (New_publisher f)) = Returned"
  using pinv_reachable[of L cfg acts f]
  by (cases "pstatus (run L cfg acts (New_publisher f))") (auto simp: pinv_def)

lemma calls_le_accepted:
  "length (calls (pubCh (run L cfg acts (New_publisher f)))) +
   length (buf (inq (run L cfg acts (New_publisher f)))) \<le>
   length (accepted (run L cfg acts (New_publisher f)))"
proof -
  let ?s = "run L cfg acts (New_publisher f)"
  from pinv_reachable[of L cfg acts f] obtain deq where
    d: "accepted ?s = deq @ buf (inq ?s)" "calls (pubCh ?s) = List.map_filter (request_of L cfg) deq"
    by (auto simp: pinv_def)
  have "length (List.map_filter (request_of L cfg) deq) \<le> length deq"
    by (simp add: List.map_filter_def)
  with d show ?thesis by simp
qed


lemma map_filter_mem:
  "c \<in> set (List.map_filter g xs) \<Longrightarrow> \<exists>x \<in> set xs. g x = Some c"
  by (auto simp: List.map_filter_def)

section \<open>Claims on the publisher worker\<close>









text \<open>
  C5. When the worker dequeues an event and its publish fails, the worker logs the
  failure, the event is gone from the queue (it is not put back), at most one call has
  been made for it (it is not retried), the worker is still running, and its next
  iteration takes the next event of the queue through the same receive case.
\<close>

theorem publish_failure_logged_event_dropped:
  assumes "pstatus s = Running"
    and "buf (inq s) = e # es"
    and "\<not> (ctx_done s \<and> pick = PickDone)"
    and "publish L cfg e (pubCh s) = (Some err, ch)"
  shows "plog (PublisherWorker_iter L cfg pick s) = plog s @ [Error ''mq publish error'' err]
       \<and> buf (inq (PublisherWorker_iter L cfg pick s)) = es
       \<and> accepted (PublisherWorker_iter L cfg pick s) = accepted s
       \<and> pstatus (PublisherWorker_iter L cfg pick s) = Running
       \<and> calls (pubCh (PublisherWorker_iter L cfg pick s)) =
           calls (pubCh s) @ (case request_of L cfg e of None \<Rightarrow> [] | Some c \<Rightarrow> [c])
       \<and> (\<forall>e' es'. es = e' # es' \<longrightarrow>
            PublisherWorker_iter L cfg PickRecv (PublisherWorker_iter L cfg pick s) =
            case_recv L cfg e' ((inq (PublisherWorker_iter L cfg pick s))\<lparr>buf := es'\<rparr>)
              (PublisherWorker_iter L cfg pick s))"
proof -
  have it: "PublisherWorker_iter L cfg pick s =
            s\<lparr>inq := (inq s)\<lparr>buf := es\<rparr>, pubCh := ch,
              plog := plog s @ [Error ''mq publish error'' err]\<rparr>"
    using assms by (auto simp: PublisherWorker_iter_def chan_recv_def case_recv_def)
  have "calls ch = calls (pubCh s) @ (case request_of L cfg e of None \<Rightarrow> [] | Some c \<Rightarrow> [c])"
    by (rule publish_calls[OF assms(4)])
  then show ?thesis
    unfolding it using assms(1)
    by (simp add: PublisherWorker_iter_def chan_recv_def)
qed

theorem publish_failure_logged_event_dropped_witness:
  "plog (PublisherWorker_iter test_lib test_cfg PickRecv
      (run test_lib test_cfg [Send ev1, Send ev2] (New_publisher first_fails))) =
     [Info ''starting publisher worker '',
      Error ''mq publish error'' (AmqpError ''connection reset'')]
   \<and> buf (inq (PublisherWorker_iter test_lib test_cfg PickRecv
      (run test_lib test_cfg [Send ev1, Send ev2] (New_publisher first_fails)))) = [ev2]
   \<and> pstatus (PublisherWorker_iter test_lib test_cfg PickRecv
      (run test_lib test_cfg [Send ev1, Send ev2] (New_publisher first_fails))) = Running
   \<and> length (calls (pubCh (PublisherWorker_iter test_lib test_cfg PickRecv
      (run test_lib test_cfg [Send ev1, Send ev2] (New_publisher first_fails))))) = 1"
proof -
  let ?s = "run test_lib test_cfg [Send ev1, Send ev2] (New_publisher first_fails)"
  have s: "?s = (New_publisher first_fails)
      \<lparr>inq := \<lparr>buf = [ev1, ev2], cap = 128, closed = False\<rparr>, accepted := [ev1, ev2]\<rparr>"
    by (simp add: run_def New_publisher_def make_chan_def bufferSize_def enqueue_def
        chan_send_def)
  have h1: "pstatus ?s = Running" and h2: "buf (inq ?s) = ev1 # [ev2]"
    and h3: "\<not> (ctx_done ?s \<and> PickRecv = PickDone)"
    unfolding s by (simp_all add: New_publisher_def)
  have r: "request_of test_lib test_cfg ev1 \<noteq> None"
    by (simp add: request_of_def json_Marshal_def Event_json_def User_json_def test_lib_def
        ev1_def test_user_def)
  have "fst (publish test_lib test_cfg ev1 (pubCh ?s)) = Some (AmqpError ''connection reset'')"
    unfolding s
    by (simp add: New_publisher_def publish_def json_Marshal_def Event_json_def
        User_json_def test_lib_def ev1_def test_user_def PublishWithContext_def
        open_pub_channel_def first_fails_def)
  then have h4: "publish test_lib test_cfg ev1 (pubCh ?s) =
      (Some (AmqpError ''connection reset''), snd (publish test_lib test_cfg ev1 (pubCh ?s)))"
    by (metis prod.collapse)
  have c0: "calls (pubCh ?s) = []" and p0: "plog ?s = [Info ''starting publisher worker '']"
    unfolding s by (simp_all add: New_publisher_def open_pub_channel_def)
  from publish_failure_logged_event_dropped[OF h1 h2 h3 h4]
  have "plog (PublisherWorker_iter test_lib test_cfg PickRecv ?s) =
          plog ?s @ [Error ''mq publish error'' (AmqpError ''connection reset'')]"
    and "buf (inq (PublisherWorker_iter test_lib test_cfg PickRecv ?s)) = [ev2]"
    and "pstatus (PublisherWorker_iter test_lib test_cfg PickRecv ?s) = Running"
    and "calls (pubCh (PublisherWorker_iter test_lib test_cfg PickRecv ?s)) =
          calls (pubCh ?s) @
          (case request_of test_lib test_cfg ev1 of None \<Rightarrow> [] | Some c \<Rightarrow> [c])"
    by blast+
  then show ?thesis using r c0 p0 by (cases "request_of test_lib test_cfg ev1") simp_all
qed

text \<open>
  C6. Once the queue is closed (the worker has taken the cancellation case, closed the
  queue and returned), in every later state a send on the queue panics at once, whether
  the buffer is full or not; it never blocks. The worker stays returned, so the queue is
  closed only once: a second close would panic.
\<close>

theorem enqueue_after_close_fails_fast:
  assumes "closed (inq (run L cfg acts (New_publisher f)))"
  shows "chan_send (inq (run L cfg (acts @ acts') (New_publisher f))) e = SendPanics
       \<and> pstatus (run L cfg (acts @ acts') (New_publisher f)) = Returned
       \<and> enqueue e (run L cfg (acts @ acts') (New_publisher f)) =
           run L cfg (acts @ acts') (New_publisher f)"
proof -
  let ?s = "run L cfg acts (New_publisher f)"
  have r: "pstatus ?s = Returned" using assms by (simp add: closed_iff_returned)
  from returned_run[OF r assms, of L cfg acts']
  have "inq (run L cfg (acts @ acts') (New_publisher f)) = inq ?s"
       "pstatus (run L cfg (acts @ acts') (New_publisher f)) = Returned"
    by (simp_all add: run_append)
  then show ?thesis using assms by (simp add: chan_send_def enqueue_def)
qed

theorem enqueue_after_close_fails_fast_witness:
  "chan_send (inq (run test_lib test_cfg
      ([Send ev1, Cancel, Worker PickDone] @ [Send ev2, Worker PickRecv])
      (New_publisher no_faults))) ev2 = SendPanics"
proof -
  have "closed (inq (run test_lib test_cfg [Send ev1, Cancel, Worker PickDone]
          (New_publisher no_faults)))"
    by (simp add: run_def New_publisher_def make_chan_def bufferSize_def enqueue_def
        chan_send_def PublisherWorker_iter_def chan_recv_def chan_close_def case_done_def)
  from enqueue_after_close_fails_fast[OF this, of "[Send ev2, Worker PickRecv]" ev2]
  show ?thesis by simp
qed

text \<open>
  C8, as amended. An iteration of the worker that takes the cancellation case (the context
  is cancelled, and the \<open>select\<close> picks that case or the queue is empty) makes no
  publish call and leaves the buffered events where they are; it closes the queue and the
  channel, and the worker has returned. Whatever happens after the worker has returned, it
  makes no further publish call and the events still in the queue stay there: they are
  never published. The number of publish calls is then at most the number of events
  enqueued less the number still buffered, so it is strictly less whenever an event was
  still buffered.
\<close>

theorem no_publish_after_cancellation:
  "(pstatus (run L cfg acts (New_publisher f)) = Running \<and>
    ctx_done (run L cfg acts (New_publisher f)) \<and>
    (pick = PickDone \<or> buf (inq (run L cfg acts (New_publisher f))) = []) \<longrightarrow>
      pstatus (PublisherWorker_iter L cfg pick (run L cfg acts (New_publisher f))) = Returned
    \<and> calls (pubCh (PublisherWorker_iter L cfg pick (run L cfg acts (New_publisher f)))) =
        calls (pubCh (run L cfg acts (New_publisher f)))
    \<and> buf (inq (PublisherWorker_iter L cfg pick (run L cfg acts (New_publisher f)))) =
        buf (inq (run L cfg acts (New_publisher f)))
    \<and> closed (inq (PublisherWorker_iter L cfg pick (run L cfg acts (New_publisher f))))
    \<and> ch_closed (pubCh (PublisherWorker_iter L cfg pick (run L cfg acts (New_publisher f)))))
   \<and> (pstatus (run L cfg acts (New_publisher f)) = Returned \<longrightarrow>
      calls (pubCh (run L cfg (acts @ acts') (New_publisher f))) =
        calls (pubCh (run L cfg acts (New_publisher f)))
    \<and> buf (inq (run L cfg (acts @ acts') (New_publisher f))) =
        buf (inq (run L cfg acts (New_publisher f)))
    \<and> length (calls (pubCh (run L cfg (acts @ acts') (New_publisher f)))) +
        length (buf (inq (run L cfg acts (New_publisher f)))) \<le>
        length (accepted (run L cfg acts (New_publisher f)))
    \<and> (buf (inq (run L cfg acts (New_publisher f))) \<noteq> [] \<longrightarrow>
         length (calls (pubCh (run L cfg (acts @ acts') (New_publisher f)))) <
         length (accepted (run L cfg acts (New_publisher f)))))"
proof (intro conjI impI)
  let ?s = "run L cfg acts (New_publisher f)"
  assume a: "pstatus ?s = Running \<and> ctx_done ?s \<and> (pick = PickDone \<or> buf (inq ?s) = [])"
  then have nc: "\<not> closed (inq ?s)"
    using pinv_reachable[of L cfg acts f] by (simp add: pinv_def)
  have it: "PublisherWorker_iter L cfg pick ?s = case_done ?s"
    using a nc by (auto simp: PublisherWorker_iter_def chan_recv_def split: list.splits)
  have cd: "case_done ?s =
      ?s\<lparr>inq := (inq ?s)\<lparr>closed := True\<rparr>, pubCh := Channel_Close (pubCh ?s),
         plog := plog ?s @ [Info ''publisher worker gracefully stopped''],
         pstatus := Returned\<rparr>"
    using nc by (simp add: case_done_def chan_close_def)
  show "pstatus (PublisherWorker_iter L cfg pick ?s) = Returned"
    and "calls (pubCh (PublisherWorker_iter L cfg pick ?s)) = calls (pubCh ?s)"
    and "buf (inq (PublisherWorker_iter L cfg pick ?s)) = buf (inq ?s)"
    and "closed (inq (PublisherWorker_iter L cfg pick ?s))"
    and "ch_closed (pubCh (PublisherWorker_iter L cfg pick ?s))"
    unfolding it cd by (simp_all add: Channel_Close_def)
next
  let ?s = "run L cfg acts (New_publisher f)"
  assume r: "pstatus ?s = Returned"
  have c: "closed (inq ?s)" using r by (simp add: closed_iff_returned)
  from returned_run[OF r c, of L cfg acts']
  have e: "inq (run L cfg (acts @ acts') (New_publisher f)) = inq ?s"
          "pubCh (run L cfg (acts @ acts') (New_publisher f)) = pubCh ?s"
    by (simp_all add: run_append)
  have l: "length (calls (pubCh ?s)) + length (buf (inq ?s)) \<le> length (accepted ?s)"
    by (rule calls_le_accepted)
  show "calls (pubCh (run L cfg (acts @ acts') (New_publisher f))) = calls (pubCh ?s)"
    and "buf (inq (run L cfg (acts @ acts') (New_publisher f))) = buf (inq ?s)"
    and "length (calls (pubCh (run L cfg (acts @ acts') (New_publisher f)))) +
         length (buf (inq ?s)) \<le> length (accepted ?s)"
    unfolding e using l by simp_all
  show "length (calls (pubCh (run L cfg (acts @ acts') (New_publisher f)))) <
        length (accepted ?s)" if "buf (inq ?s) \<noteq> []"
    unfolding e using l that by (cases "buf (inq ?s)") auto
qed

theorem no_publish_after_cancellation_witness:
  "calls (pubCh (PublisherWorker_iter test_lib test_cfg PickDone
      (run test_lib test_cfg [Send ev1, Send ev2, Cancel, Worker PickRecv]
        (New_publisher no_faults)))) =
   calls (pubCh (run test_lib test_cfg [Send ev1, Send ev2, Cancel, Worker PickRecv]
        (New_publisher no_faults)))
   \<and> buf (inq (PublisherWorker_iter test_lib test_cfg PickDone
      (run test_lib test_cfg [Send ev1, Send ev2, Cancel, Worker PickRecv]
        (New_publisher no_faults)))) = [ev2]
   \<and> calls (pubCh (run test_lib test_cfg
      ([Send ev1, Send ev2, Cancel, Worker PickRecv, Worker PickDone] @ [Worker PickRecv])
      (New_publisher no_faults))) =
   calls (pubCh (run test_lib test_cfg
      [Send ev1, Send ev2, Cancel, Worker PickRecv, Worker PickDone]
      (New_publisher no_faults)))
   \<and> length (calls (pubCh (run test_lib test_cfg
      ([Send ev1, Send ev2, Cancel, Worker PickRecv, Worker PickDone] @ [Worker PickRecv])
      (New_publisher no_faults)))) < 2"
proof -
  let ?pre = "[Send ev1, Send ev2, Cancel, Worker PickRecv]"
  let ?acts = "[Send ev1, Send ev2, Cancel, Worker PickRecv, Worker PickDone]"
  have p: "pstatus (run test_lib test_cfg ?pre (New_publisher no_faults)) = Running
         \<and> ctx_done (run test_lib test_cfg ?pre (New_publisher no_faults))
         \<and> (PickDone = PickDone \<or>
              buf (inq (run test_lib test_cfg ?pre (New_publisher no_faults))) = [])"
    and pb: "buf (inq (run test_lib test_cfg ?pre (New_publisher no_faults))) = [ev2]"
    by (simp_all add: run_def New_publisher_def make_chan_def bufferSize_def enqueue_def
        chan_send_def PublisherWorker_iter_def chan_recv_def case_recv_def
        publish_def json_Marshal_def Event_json_def User_json_def
        test_lib_def ev1_def test_user_def PublishWithContext_def
        open_pub_channel_def no_faults_def)
  have s: "pstatus (run test_lib test_cfg ?acts (New_publisher no_faults)) = Returned
         \<and> buf (inq (run test_lib test_cfg ?acts (New_publisher no_faults))) = [ev2]
         \<and> accepted (run test_lib test_cfg ?acts (New_publisher no_faults)) = [ev1, ev2]"
    by (simp add: run_def New_publisher_def make_chan_def bufferSize_def enqueue_def
        chan_send_def PublisherWorker_iter_def chan_recv_def chan_close_def case_recv_def
        case_done_def publish_def json_Marshal_def Event_json_def User_json_def
        test_lib_def ev1_def test_user_def PublishWithContext_def Channel_Close_def
        open_pub_channel_def no_faults_def)
  then have h: "pstatus (run test_lib test_cfg ?acts (New_publisher no_faults)) = Returned"
    by simp
  note th1 = no_publish_after_cancellation[THEN conjunct1, rule_format]
  note th2 = no_publish_after_cancellation[THEN conjunct2, rule_format]
  from th1[OF p]
  have "calls (pubCh (PublisherWorker_iter test_lib test_cfg PickDone
            (run test_lib test_cfg ?pre (New_publisher no_faults)))) =
        calls (pubCh (run test_lib test_cfg ?pre (New_publisher no_faults)))"
    and "buf (inq (PublisherWorker_iter test_lib test_cfg PickDone
            (run test_lib test_cfg ?pre (New_publisher no_faults)))) =
         buf (inq (run test_lib test_cfg ?pre (New_publisher no_faults)))"
    by blast+
  moreover from th2[OF h, of "[Worker PickRecv]"]
  have "calls (pubCh (run test_lib test_cfg (?acts @ [Worker PickRecv])
            (New_publisher no_faults))) =
        calls (pubCh (run test_lib test_cfg ?acts (New_publisher no_faults)))"
    and "length (calls (pubCh (run test_lib test_cfg (?acts @ [Worker PickRecv])
            (New_publisher no_faults)))) +
         length (buf (inq (run test_lib test_cfg ?acts (New_publisher no_faults)))) \<le>
         length (accepted (run test_lib test_cfg ?acts (New_publisher no_faults)))"
    by blast+
  moreover have "length (buf (inq (run test_lib test_cfg ?acts (New_publisher no_faults)))) = 1"
    and "length (accepted (run test_lib test_cfg ?acts (New_publisher no_faults))) = 2"
    using s by simp_all
  ultimately show ?thesis using pb by (intro conjI) (simp, simp, simp, linarith)
qed

text \<open>
  C8 as stated fails: with the queue pre-filled and the context cancelled at once, the
  \<open>select\<close> of the worker may still take the receive case first, and then every enqueued
  event is published before the worker returns.
\<close>

theorem published_count_counterexample:
  "length (calls (pubCh (run test_lib test_cfg
      [Send ev1, Cancel, Worker PickRecv, Worker PickDone] (New_publisher no_faults)))) = 1
   \<and> length (accepted (run test_lib test_cfg
      [Send ev1, Cancel, Worker PickRecv, Worker PickDone] (New_publisher no_faults))) = 1
   \<and> pstatus (run test_lib test_cfg
      [Send ev1, Cancel, Worker PickRecv, Worker PickDone] (New_publisher no_faults)) = Returned"
  by (simp add: run_def New_publisher_def make_chan_def bufferSize_def enqueue_def
      chan_send_def PublisherWorker_iter_def chan_recv_def chan_close_def case_recv_def
      case_done_def publish_def json_Marshal_def Event_json_def User_json_def test_lib_def
      ev1_def test_user_def PublishWithContext_def Channel_Close_def
      open_pub_channel_def no_faults_def)

section \<open>Claims on the consumer's handler\<close>

text \<open>
  C4. The line \<open>delivery\<close> writes carries the label \<open>UserCreated\<close> for the routing key
  \<open>POST\<close>, \<open>UserUpdated\<close> for \<open>PUT\<close>, \<open>UserDeleted\<close> for \<open>DELETE\<close>, and the empty
  label for every other routing key.
\<close>

theorem routing_key_action_mapping:
  "(RoutingKey msg = ''POST'' \<longrightarrow>
      fst (delivery msg) = ''Action=UserCreated EventBody='' @ DeliveryBody msg @ [CHR 0x0A])
   \<and> (RoutingKey msg = ''PUT'' \<longrightarrow>
      fst (delivery msg) = ''Action=UserUpdated EventBody='' @ DeliveryBody msg @ [CHR 0x0A])
   \<and> (RoutingKey msg = ''DELETE'' \<longrightarrow>
      fst (delivery msg) = ''Action=UserDeleted EventBody='' @ DeliveryBody msg @ [CHR 0x0A])
   \<and> (RoutingKey msg \<noteq> ''POST'' \<and> RoutingKey msg \<noteq> ''PUT'' \<and> RoutingKey msg \<noteq> ''DELETE'' \<longrightarrow>
      fst (delivery msg) = ''Action= EventBody='' @ DeliveryBody msg @ [CHR 0x0A])"
  by (simp add: delivery_def action_label_def MethodPost_def MethodPut_def MethodDelete_def)

theorem routing_key_action_mapping_witness:
  "fst (delivery \<lparr>RoutingKey = ''POST'', DeliveryBody = ''{\"id\":1}'', Redelivered = False\<rparr>) =
     ''Action=UserCreated EventBody={\"id\":1}'' @ [CHR 0x0A]
   \<and> fst (delivery \<lparr>RoutingKey = ''PUT'', DeliveryBody = ''{\"id\":2}'', Redelivered = False\<rparr>) =
     ''Action=UserUpdated EventBody={\"id\":2}'' @ [CHR 0x0A]
   \<and> fst (delivery \<lparr>RoutingKey = ''DELETE'', DeliveryBody = ''{\"id\":3}'', Redelivered = False\<rparr>) =
     ''Action=UserDeleted EventBody={\"id\":3}'' @ [CHR 0x0A]
   \<and> fst (delivery \<lparr>RoutingKey = ''PATCH'', DeliveryBody = ''{\"id\":4}'', Redelivered = False\<rparr>) =
     ''Action= EventBody={\"id\":4}'' @ [CHR 0x0A]"
  using
    routing_key_action_mapping
      [of "\<lparr>RoutingKey = ''POST'', DeliveryBody = ''{\"id\":1}'', Redelivered = False\<rparr>"]
    routing_key_action_mapping
      [of "\<lparr>RoutingKey = ''PUT'', DeliveryBody = ''{\"id\":2}'', Redelivered = False\<rparr>"]
    routing_key_action_mapping
      [of "\<lparr>RoutingKey = ''DELETE'', DeliveryBody = ''{\"id\":3}'', Redelivered = False\<rparr>"]
    routing_key_action_mapping
      [of "\<lparr>RoutingKey = ''PATCH'', DeliveryBody = ''{\"id\":4}'', Redelivered = False\<rparr>"]
  by simp

lemma c_run_Nil: "c_run h [] c = c"
  by (simp add: c_run_def)

lemma c_run_Cons: "c_run h (a # acts) c = c_run h acts (c_step h a c)"
  by (simp add: c_run_def)

lemma c_status_step:
  "c_status (c_step h a c) = c_status c \<or>
   (c_status c = Running \<and> c_status (c_step h a c) = Returned)"
  by (cases a)
     (auto simp: c_arrive_def c_deliver_def DeliveryWorker_iter_with_def c_case_recv_def
        c_case_done_def split: option.splits prod.splits recv_result.splits)

lemma c_log_step_delivery:
  "c_log (c_step delivery a c) =
   c_log c @ (if c_status c = Running \<and> c_status (c_step delivery a c) = Returned
              then [Info ''delivery worker gracefully stopped''] else [])"
  by (cases a)
     (auto simp: c_arrive_def c_deliver_def DeliveryWorker_iter_with_def c_case_recv_def
        c_case_done_def delivery_def split: option.splits prod.splits recv_result.splits)

lemma c_status_run_Returned:
  "c_status c \<noteq> Running \<Longrightarrow> c_status (c_run h acts c) = c_status c"
proof (induction acts arbitrary: c)
  case Nil
  then show ?case by (simp add: c_run_Nil)
next
  case (Cons a acts)
  from c_status_step[of h a c] Cons.prems have "c_status (c_step h a c) = c_status c" by auto
  with Cons show ?case by (simp add: c_run_Cons)
qed

text \<open>
  C10. \<open>delivery\<close> returns nil for every delivery. So, whatever is delivered and
  whenever the context is cancelled, the worker never logs a read error: all it adds to
  the log is the line of its return.
\<close>

theorem delivery_never_fails:
  "snd (delivery msg) = None
   \<and> c_log (c_run delivery acts c) =
       c_log c @ (if c_status c = Running \<and> c_status (c_run delivery acts c) = Returned
                  then [Info ''delivery worker gracefully stopped''] else [])"
proof -
  have "c_log (c_run delivery acts c) =
       c_log c @ (if c_status c = Running \<and> c_status (c_run delivery acts c) = Returned
                  then [Info ''delivery worker gracefully stopped''] else [])"
  proof (induction acts arbitrary: c)
    case Nil
    then show ?case by (simp add: c_run_Nil)
  next
    case (Cons a acts)
    let ?c = "c_step delivery a c"
    consider "c_status ?c = c_status c" | "c_status c = Running" "c_status ?c = Returned"
      using c_status_step[of delivery a c] by blast
    then show ?case
    proof cases
      case 1
      then show ?thesis
        using Cons.IH[of ?c] c_log_step_delivery[of a c] by (simp add: c_run_Cons)
    next
      case 2
      then have "c_status (c_run delivery acts ?c) = Returned"
        using c_status_run_Returned[of ?c delivery acts] by simp
      then show ?thesis
        using 2 Cons.IH[of ?c] c_log_step_delivery[of a c] by (simp add: c_run_Cons)
    qed
  qed
  then show ?thesis by (simp add: delivery_def)
qed

section \<open>Claim on the orchestrator\<close>

text \<open>
  C2. When \<open>Shutdown\<close> returns an error, \<open>Run\<close> returns that error and \<open>main\<close> exits
  with status 1; but \<open>Run\<close> returns straight after logging the error, without
  \<open>g.Wait()\<close>: it does not wait for the two worker tasks. Here \<open>Shutdown\<close> exceeds its
  grace period.
\<close>

theorem run_returns_without_waiting:
  "Run ''usermanagerapi''
     \<lparr>listen_result = Some ErrServerClosed,
      shutdown_result = Some (HttpError ''context deadline exceeded'')\<rparr> =
   ([Go_HTTP, Go_PublisherWorker, Go_DeliveryWorker, Ctx_Done,
     Log (Info ''shutting down usermanagerapi gracefully...''), Http_Shutdown,
     Log (Error ''http server shutdown usermanagerapi error''
            (HttpError ''context deadline exceeded''))],
    Some (HttpError ''context deadline exceeded''))
   \<and> main_exit_code (snd (Run ''usermanagerapi''
        \<lparr>listen_result = Some ErrServerClosed,
         shutdown_result = Some (HttpError ''context deadline exceeded'')\<rparr>)) = 1
   \<and> Group_Wait \<notin> set (fst (Run ''usermanagerapi''
        \<lparr>listen_result = Some ErrServerClosed,
         shutdown_result = Some (HttpError ''context deadline exceeded'')\<rparr>))
   \<and> Group_Wait \<in> set (fst (Run ''usermanagerapi''
        \<lparr>listen_result = Some ErrServerClosed, shutdown_result = None\<rparr>))"
  by (simp add: Run_def http_task_def main_exit_code_def)

section \<open>The consumer: subscription and invariant\<close>

lemma ExchangeDeclare_frame:
  assumes "ExchangeDeclare n k d a i ch b = (r, ch', b')"
  shows "consumers ch' = consumers ch \<and> unacked ch' = unacked ch \<and>
         prefetch ch' = prefetch ch \<and> ready b' = ready b"
  using assms
  by (auto simp: ExchangeDeclare_def channel_exception_def Let_def
      split: if_splits option.splits)

lemma QueueDeclare_frame:
  assumes "QueueDeclare n d a x ch b = (r, ch', b')"
  shows "consumers ch' = consumers ch \<and> unacked ch' = unacked ch \<and>
         prefetch ch' = prefetch ch \<and> ready b' = ready b"
  using assms
  by (auto simp: QueueDeclare_def channel_exception_def Let_def
      split: if_splits option.splits)

lemma QueueBind_frame:
  assumes "QueueBind n k x ch b = (r, ch', b')"
  shows "consumers ch' = consumers ch \<and> unacked ch' = unacked ch \<and>
         prefetch ch' = prefetch ch \<and> ready b' = ready b"
  using assms
  by (auto simp: QueueBind_def channel_exception_def split: if_splits option.splits)

lemma consumer_bind_frame:
  "consumer_bind q x rks c = (r, c') \<Longrightarrow> same_frame c c'"
proof (induction rks arbitrary: c)
  case Nil
  then show ?case by (simp add: same_frame_def)
next
  case (Cons rk rks)
  obtain r1 ch b where qb: "QueueBind q rk x (chConsume c) (c_broker c) = (r1, ch, b)"
    by (cases "QueueBind q rk x (chConsume c) (c_broker c)")
  note f = QueueBind_frame[OF qb]
  show ?case
  proof (cases r1)
    case None
    with Cons.prems qb
    have "consumer_bind q x rks (c\<lparr>chConsume := ch, c_broker := b, err_var := None\<rparr>) = (r, c')"
      by simp
    from Cons.IH[OF this] f show ?thesis by (simp add: same_frame_def)
  next
    case (Some e)
    with Cons.prems qb f show ?thesis by (auto simp: same_frame_def)
  qed
qed

lemma consumer_subscribe_ok:
  assumes "consumer_subscribe c = (None, c')"
  shows "prefetch (chConsume c') = 1 \<and>
         (\<exists>q. consumers (chConsume c') = consumers (chConsume c) @ [(q, True)]) \<and>
         unacked (chConsume c') = unacked (chConsume c) \<and>
         chDelivery c' = Some (make_chan 0) \<and> c_broker c' = c_broker c \<and>
         c_status c' = c_status c \<and> arrived c' = arrived c \<and> handled c' = handled c"
  using assms
  by (auto simp: consumer_subscribe_def Qos_def Consume_def channel_exception_def
      preFetchCount_def split: if_splits option.splits prod.splits sum.splits)

lemma Consumer_Init_ok:
  assumes "Consumer_Init (New_consumer cfg b0) = (None, c0)"
  shows "prefetch (chConsume c0) = 1 \<and> (\<exists>q. cinv q (ready (c_broker c0) q) c0)"
proof -
  let ?c = "New_consumer cfg b0"
  obtain r1 ch1 b1 where x: "ExchangeDeclare (Exchange cfg) (ExchangeType cfg) True False False
      (chConsume ?c) (c_broker ?c) = (r1, ch1, b1)"
    using prod_cases3 by blast
  obtain r2 ch2 b2 where q: "QueueDeclare (QueueName cfg) True False False ch1 b1 = (r2, ch2, b2)"
    using prod_cases3 by blast
  let ?c2 = "?c\<lparr>chConsume := ch2, c_broker := b2, err_var := None\<rparr>"
  obtain r3 c3 where bd: "consumer_bind (QueueName cfg) (Exchange cfg)
      [MethodPost, MethodPut, MethodDelete] ?c2 = (r3, c3)"
    by (cases "consumer_bind (QueueName cfg) (Exchange cfg)
      [MethodPost, MethodPut, MethodDelete] ?c2")
  have cfg: "c_cfg ?c = cfg" by (simp add: New_consumer_def)
  from assms x q bd have r: "r1 = None" "\<exists>n. r2 = Inr n" "r3 = None"
    and sub: "consumer_subscribe c3 = (None, c0)"
    unfolding Consumer_Init_def cfg
    by (auto split: option.splits sum.splits)
  note f1 = ExchangeDeclare_frame[OF x] and f2 = QueueDeclare_frame[OF q]
    and f3 = consumer_bind_frame[OF bd] and f4 = consumer_subscribe_ok[OF sub]
  from f4 obtain qn where qn: "consumers (chConsume c0) = consumers (chConsume c3) @ [(qn, True)]"
    by blast
  have "consumers (chConsume c3) = []" "unacked (chConsume c3) = []"
    "c_status c3 = Running" "arrived c3 = []" "handled c3 = []"
    using f1 f2 f3 by (simp_all add: same_frame_def New_consumer_def open_channel_def)
  with f4 qn have "cinv qn (ready (c_broker c0) qn) c0"
    by (simp add: cinv_def make_chan_def arrivals_def)
  with f4 show ?thesis by blast
qed

lemma requeue_Nil: "requeue [] b = b"
  by simp

lemma cinv_step:
  assumes "cinv q r0 c"
  shows "cinv q r0 (c_step h a c)"
proof -
  from assms obtain d where d: "chDelivery c = Some d" "c_status c = Running \<longrightarrow> \<not> closed d"
    "handled c @ buf d @ ready (c_broker c) q = r0 @ arrivals q c"
    and cs: "consumers (chConsume c) = [(q, True)]" and ua: "unacked (chConsume c) = []"
    by (auto simp: cinv_def)
  show ?thesis
  proof (cases a)
    case (Arrive q' m)
    then show ?thesis using d cs ua
      by (auto simp: cinv_def c_arrive_def arrivals_def)
  next
    case Deliver
    show ?thesis
    proof (cases "broker_deliver (chConsume c) (c_broker c)")
      case None
      then show ?thesis using assms Deliver d by (simp add: c_deliver_def)
    next
      case (Some t)
      then obtain m ms where
        "ready (c_broker c) q = m # ms"
        "t = (m, chConsume c, (c_broker c)\<lparr>ready := (ready (c_broker c))(q := ms)\<rparr>)"
        using cs by (auto simp: broker_deliver_def split: if_splits list.splits)
      then show ?thesis using Deliver Some d cs ua
        by (auto simp: cinv_def c_deliver_def arrivals_def)
    qed
  next
    case CCancel
    then show ?thesis using assms by (auto simp: cinv_def arrivals_def)
  next
    case (CWorker pick)
    have dn: "cinv q r0 (c_case_done c)"
      using d cs ua by (auto simp: cinv_def c_case_done_def Channel_Close_def arrivals_def)
    show ?thesis
    proof (cases "c_status c = Running")
      case False
      then show ?thesis using assms CWorker by (simp add: DeliveryWorker_iter_with_def)
    next
      case True
      with d have nc: "\<not> closed d" by simp
      show ?thesis
      proof (cases "buf d")
        case Nil
        then show ?thesis using assms CWorker True nc d dn
          by (auto simp: DeliveryWorker_iter_with_def chan_recv_def)
      next
        case (Cons m ms)
        have "cinv q r0 (c_case_recv h m (d\<lparr>buf := ms\<rparr>) c)"
          using d cs ua Cons nc True
          by (cases "h m")
             (auto simp: cinv_def c_case_recv_def arrivals_def split: option.splits)
        then show ?thesis using CWorker True d dn Cons
          by (auto simp: DeliveryWorker_iter_with_def chan_recv_def)
      qed
    qed
  qed
qed

lemma cinv_run: "cinv q r0 c \<Longrightarrow> cinv q r0 (c_run h acts c)"
  by (induction acts arbitrary: c) (auto simp: c_run_Nil c_run_Cons intro: cinv_step)

section \<open>Claim on the consumer worker\<close>

text \<open>
  C9. After a successful \<open>Init\<close> the consumer's channel has the prefetch count 1 and one
  consumer, registered with autoAck. From then on, whatever the handler does, the
  channel never holds an unacknowledged delivery (the broker has nothing to redeliver, also
  when the channel is closed), and the messages handled, those ready for the worker and
  those waiting in the queue are, in order, the messages of the queue: each is handled
  at most once. An iteration whose handler returns an error logs it, leaves the broker and
  the channel as they are, and the worker is still running.
\<close>

theorem consumer_auto_ack:
  assumes "Consumer_Init (New_consumer cfg b0) = (None, c0)"
  shows "prefetch (chConsume c0) = 1
    \<and> (\<exists>q. consumers (chConsume c0) = [(q, True)] \<and>
         (\<forall>h acts. unacked (chConsume (c_run h acts c0)) = [] \<and>
            (\<exists>d. chDelivery (c_run h acts c0) = Some d \<and>
               handled (c_run h acts c0) @ buf d @ ready (c_broker (c_run h acts c0)) q =
               ready (c_broker c0) q @ arrivals q (c_run h acts c0))))
    \<and> (\<forall>h pick c msg ms d line e.
         c_status c = Running \<and> chDelivery c = Some d \<and> buf d = msg # ms \<and>
         \<not> (c_ctx_done c \<and> pick = PickDone) \<and> h msg = (line, Some e) \<longrightarrow>
         c_log (DeliveryWorker_iter_with h pick c) =
           c_log c @ [Error ''mq read message error'' e] \<and>
         c_status (DeliveryWorker_iter_with h pick c) = Running \<and>
         c_broker (DeliveryWorker_iter_with h pick c) = c_broker c \<and>
         chConsume (DeliveryWorker_iter_with h pick c) = chConsume c \<and>
         chDelivery (DeliveryWorker_iter_with h pick c) = Some (d\<lparr>buf := ms\<rparr>))"
proof -
  from Consumer_Init_ok[OF assms] obtain q where
    p: "prefetch (chConsume c0) = 1" and i: "cinv q (ready (c_broker c0) q) c0"
    by blast
  have "unacked (chConsume (c_run h acts c0)) = [] \<and>
        (\<exists>d. chDelivery (c_run h acts c0) = Some d \<and>
           handled (c_run h acts c0) @ buf d @ ready (c_broker (c_run h acts c0)) q =
           ready (c_broker c0) q @ arrivals q (c_run h acts c0))" for h acts
    using cinv_run[OF i, of h acts] by (auto simp: cinv_def)
  moreover have "consumers (chConsume c0) = [(q, True)]" using i by (simp add: cinv_def)
  moreover have "c_log (DeliveryWorker_iter_with h pick c) =
           c_log c @ [Error ''mq read message error'' e] \<and>
         c_status (DeliveryWorker_iter_with h pick c) = Running \<and>
         c_broker (DeliveryWorker_iter_with h pick c) = c_broker c \<and>
         chConsume (DeliveryWorker_iter_with h pick c) = chConsume c \<and>
         chDelivery (DeliveryWorker_iter_with h pick c) = Some (d\<lparr>buf := ms\<rparr>)"
    if "c_status c = Running \<and> chDelivery c = Some d \<and> buf d = msg # ms \<and>
         \<not> (c_ctx_done c \<and> pick = PickDone) \<and> h msg = (line, Some e)"
    for h pick c msg ms d line e
    using that by (auto simp: DeliveryWorker_iter_with_def chan_recv_def c_case_recv_def)
  ultimately show ?thesis using p by blast
qed

theorem consumer_auto_ack_witness:
  "prefetch (chConsume subscribed) = 1
   \<and> unacked (chConsume (c_run failing_handler
         [Arrive ''users.events'' post1, Deliver, CWorker PickRecv, CCancel, CWorker PickRecv]
         subscribed)) = []
   \<and> c_log (DeliveryWorker_iter_with failing_handler PickRecv
        (c_run failing_handler [Arrive ''users.events'' post1, Deliver] subscribed)) =
      [Error ''mq read message error'' (AmqpError ''handler failed'')]
   \<and> c_status (DeliveryWorker_iter_with failing_handler PickRecv
        (c_run failing_handler [Arrive ''users.events'' post1, Deliver] subscribed)) = Running
   \<and> ready (c_broker (DeliveryWorker_iter_with failing_handler PickRecv
        (c_run failing_handler [Arrive ''users.events'' post1, Deliver] subscribed)))
        ''users.events'' = []"
proof -
  let ?c1 = "c_run failing_handler [Arrive ''users.events'' post1, Deliver] subscribed"
  have i: "Consumer_Init (New_consumer test_cfg empty_broker) = (None, subscribed)"
    by (simp add: Consumer_Init_def New_consumer_def test_cfg_def empty_broker_def
        open_channel_def ExchangeDeclare_def QueueDeclare_def QueueBind_def Qos_def
        Consume_def channel_exception_def resolve_queue_def reserved_name_def
        consumer_subscribe_def MethodPost_def MethodPut_def MethodDelete_def
        preFetchCount_def make_chan_def Let_def subscribed_def test_topology_def)
  have c1: "c_status ?c1 = Running" "c_log ?c1 = []"
    "chDelivery ?c1 = Some \<lparr>buf = [post1], cap = 0, closed = False\<rparr>"
    "\<not> (c_ctx_done ?c1 \<and> PickRecv = PickDone)"
    "ready (c_broker ?c1) ''users.events'' = []"
    by (simp_all add: c_run_def c_arrive_def c_deliver_def broker_deliver_def subscribed_def
        test_topology_def)
  have fh: "failing_handler post1 =
            (fst (delivery post1), Some (AmqpError ''handler failed''))"
    by (simp add: failing_handler_def post1_def MethodPost_def)
  have b: "buf \<lparr>buf = [post1], cap = 0, closed = False\<rparr> = post1 # []" by simp
  from consumer_auto_ack[OF i]
  have p: "prefetch (chConsume subscribed) = 1"
    and u: "\<exists>q. consumers (chConsume subscribed) = [(q, True)] \<and>
         (\<forall>h acts. unacked (chConsume (c_run h acts subscribed)) = [] \<and>
            (\<exists>d. chDelivery (c_run h acts subscribed) = Some d \<and>
               handled (c_run h acts subscribed) @ buf d @
                 ready (c_broker (c_run h acts subscribed)) q =
               ready (c_broker subscribed) q @ arrivals q (c_run h acts subscribed)))"
    and w: "\<forall>h pick c msg ms d line e.
         c_status c = Running \<and> chDelivery c = Some d \<and> buf d = msg # ms \<and>
         \<not> (c_ctx_done c \<and> pick = PickDone) \<and> h msg = (line, Some e) \<longrightarrow>
         c_log (DeliveryWorker_iter_with h pick c) =
           c_log c @ [Error ''mq read message error'' e] \<and>
         c_status (DeliveryWorker_iter_with h pick c) = Running \<and>
         c_broker (DeliveryWorker_iter_with h pick c) = c_broker c \<and>
         chConsume (DeliveryWorker_iter_with h pick c) = chConsume c \<and>
         chDelivery (DeliveryWorker_iter_with h pick c) = Some (d\<lparr>buf := ms\<rparr>)"
    by blast+
  from w c1(1,3,4) b fh
  have "c_log (DeliveryWorker_iter_with failing_handler PickRecv ?c1) =
           c_log ?c1 @ [Error ''mq read message error'' (AmqpError ''handler failed'')] \<and>
        c_status (DeliveryWorker_iter_with failing_handler PickRecv ?c1) = Running \<and>
        c_broker (DeliveryWorker_iter_with failing_handler PickRecv ?c1) = c_broker ?c1"
    by blast
  with p u c1(2,5) show ?thesis by auto
qed

section \<open>Claim on the topology\<close>

lemma ExchangeDeclare_ok:
  assumes "ExchangeDeclare n k d a i ch b = (None, ch', b')"
  shows "ch' = ch \<and> \<not> ch_closed ch \<and> n \<noteq> [] \<and>
         exchanges b' n = Some \<lparr>x_kind = k, x_durable = d, x_autoDelete = a, x_internal = i\<rparr> \<and>
         queues b' = queues b \<and> bindings b' = bindings b"
  using assms
  by (auto simp: ExchangeDeclare_def channel_exception_def Let_def
      split: if_splits option.splits)

lemma QueueDeclare_ok:
  assumes "QueueDeclare n d a x ch b = (Inr q, ch', b')" and "n \<noteq> []"
  shows "q = n \<and> ch' = ch\<lparr>last_queue := Some n\<rparr> \<and> \<not> ch_closed ch \<and>
         queues b' n = Some \<lparr>q_durable = d, q_autoDelete = a, q_exclusive = x\<rparr> \<and>
         exchanges b' = exchanges b \<and> bindings b' = bindings b"
  using assms
  by (auto simp: QueueDeclare_def channel_exception_def Let_def
      split: if_splits option.splits)

lemma QueueBind_ok:
  assumes "QueueBind n k x ch b = (None, ch', b')" and "n \<noteq> []"
  shows "ch' = ch \<and> b' = b\<lparr>bindings := insert (n, k, x) (bindings b)\<rparr>"
  using assms
  by (auto simp: QueueBind_def channel_exception_def resolve_queue_def
      split: if_splits option.splits)

lemma mq_bind_ok:
  "mq_bind q x rks ch b = (None, ch', b') \<Longrightarrow> q \<noteq> [] \<Longrightarrow>
   ch' = ch \<and> exchanges b' = exchanges b \<and> queues b' = queues b \<and>
   bindings b' = bindings b \<union> (\<lambda>rk. (q, rk, x)) ` set rks"
proof (induction rks arbitrary: ch b)
  case Nil
  then show ?case by simp
next
  case (Cons rk rks)
  obtain r1 ch1 b1 where qb: "QueueBind q rk x ch b = (r1, ch1, b1)"
    using prod_cases3 by blast
  with Cons.prems have r1: "r1 = None" and rest: "mq_bind q x rks ch1 b1 = (None, ch', b')"
    by (auto split: option.splits)
  from QueueBind_ok[OF qb[unfolded r1] Cons.prems(2)]
  have "ch1 = ch" "b1 = b\<lparr>bindings := insert (q, rk, x) (bindings b)\<rparr>" by simp_all
  with Cons.IH[OF rest Cons.prems(2)] show ?case by auto
qed

lemma mq_Init_declares:
  assumes "mq_Init cfg ch b = (None, ch1, b1)" and "QueueName cfg \<noteq> []"
  shows "topology_declared cfg b1 \<and> \<not> ch_closed ch1 \<and> last_queue ch1 = Some (QueueName cfg)"
proof -
  obtain r1 c1 d1 where x: "ExchangeDeclare (Exchange cfg) (ExchangeType cfg) True False False
      ch b = (r1, c1, d1)"
    using prod_cases3 by blast
  obtain r2 c2 d2 where q: "QueueDeclare (QueueName cfg) True False False c1 d1 = (r2, c2, d2)"
    using prod_cases3 by blast
  from assms(1) x q have r1: "r1 = None" by (auto simp: mq_Init_def split: option.splits)
  with assms(1) x q obtain qn where r2: "r2 = Inr qn"
    and bd: "mq_bind qn (Exchange cfg) [MethodPost, MethodPut, MethodDelete] c2 d2 =
             (None, ch1, b1)"
    by (auto simp: mq_Init_def split: sum.splits)
  note e = ExchangeDeclare_ok[OF x[unfolded r1]]
  note d = QueueDeclare_ok[OF q[unfolded r2] assms(2)]
  from d have qn: "qn = QueueName cfg" by simp
  note m = mq_bind_ok[OF bd[unfolded qn] assms(2)]
  show ?thesis using e d m assms(2) by (auto simp: topology_declared_def)
qed

lemma declared_Init_noop:
  assumes "topology_declared cfg b" and "\<not> ch_closed ch"
    and "last_queue ch = Some (QueueName cfg)"
  shows "mq_Init cfg ch b = (None, ch, b)"
proof -
  have x: "ExchangeDeclare (Exchange cfg) (ExchangeType cfg) True False False ch b =
           (None, ch, b)"
    using assms by (simp add: ExchangeDeclare_def topology_declared_def)
  have q: "QueueDeclare (QueueName cfg) True False False ch b = (Inr (QueueName cfg), ch, b)"
    using assms by (simp add: QueueDeclare_def topology_declared_def)
  have bnd: "QueueBind (QueueName cfg) rk (Exchange cfg) ch b = (None, ch, b)"
    if "(QueueName cfg, rk, Exchange cfg) \<in> bindings b" for rk
    using assms that
    by (simp add: QueueBind_def topology_declared_def resolve_queue_def insert_absorb)
  have "mq_bind (QueueName cfg) (Exchange cfg) [MethodPost, MethodPut, MethodDelete] ch b =
        (None, ch, b)"
    using assms(1) by (simp add: bnd topology_declared_def)
  with x q show ?thesis by (simp add: mq_Init_def)
qed

lemma declared_Consumer_Init:
  assumes "topology_declared cfg b"
  shows "\<exists>c. Consumer_Init (New_consumer cfg b) = (None, c) \<and> c_broker c = b"
proof -
  let ?c = "New_consumer cfg b"
  let ?ch = "open_channel\<lparr>last_queue := Some (QueueName cfg)\<rparr>"
  let ?c2 = "?c\<lparr>chConsume := ?ch, c_broker := b, err_var := None\<rparr>"
  have x: "ExchangeDeclare (Exchange cfg) (ExchangeType cfg) True False False
             (chConsume ?c) (c_broker ?c) = (None, open_channel, b)"
    using assms
    by (simp add: ExchangeDeclare_def topology_declared_def New_consumer_def open_channel_def)
  have q: "QueueDeclare (QueueName cfg) True False False open_channel b =
           (Inr (QueueName cfg), ?ch, b)"
    using assms by (simp add: QueueDeclare_def topology_declared_def open_channel_def)
  have bnd: "QueueBind (QueueName cfg) rk (Exchange cfg) ?ch b = (None, ?ch, b)"
    if "(QueueName cfg, rk, Exchange cfg) \<in> bindings b" for rk
    using assms that
    by (simp add: QueueBind_def topology_declared_def resolve_queue_def insert_absorb
        open_channel_def)
  have c2: "?c2\<lparr>chConsume := ?ch, c_broker := b, err_var := None\<rparr> = ?c2" by simp
  have bd: "consumer_bind (QueueName cfg) (Exchange cfg) [MethodPost, MethodPut, MethodDelete]
              ?c2 = (None, ?c2)"
    using assms by (simp add: bnd topology_declared_def c2)
  have sub: "\<exists>c. consumer_subscribe ?c2 = (None, c) \<and> c_broker c = b"
    using assms
    by (simp add: consumer_subscribe_def Qos_def Consume_def resolve_queue_def
        topology_declared_def open_channel_def New_consumer_def)
  have cfg: "c_cfg ?c = cfg" by (simp add: New_consumer_def)
  show ?thesis
    unfolding Consumer_Init_def cfg using x q bd sub by simp
qed

text \<open>
  C7, as amended. With a queue name configured (not empty): when \<open>RabbitMQ.Init\<close> has
  succeeded, running it again on the same channel succeeds and leaves channel and broker
  exactly as they were, and \<open>Consumer.Init\<close>, which declares the same topology on its own
  channel, succeeds as well and leaves the broker as it was.
\<close>

theorem topology_declared_twice:
  assumes "QueueName cfg \<noteq> []"
    and "mq_Init cfg ch b = (None, ch1, b1)"
  shows "mq_Init cfg ch1 b1 = (None, ch1, b1)
       \<and> (\<exists>c. Consumer_Init (New_consumer cfg b1) = (None, c) \<and> c_broker c = b1)"
proof -
  from mq_Init_declares[OF assms(2,1)]
  have t: "topology_declared cfg b1" and c: "\<not> ch_closed ch1"
    and l: "last_queue ch1 = Some (QueueName cfg)"
    by simp_all
  from declared_Init_noop[OF t c l] declared_Consumer_Init[OF t] show ?thesis by blast
qed

theorem topology_declared_twice_witness:
  "mq_Init test_cfg (open_channel\<lparr>last_queue := Some ''users.events''\<rparr>) test_topology =
     (None, open_channel\<lparr>last_queue := Some ''users.events''\<rparr>, test_topology)
   \<and> (\<exists>c. Consumer_Init (New_consumer test_cfg test_topology) = (None, c) \<and>
          c_broker c = test_topology)"
proof -
  have n: "QueueName test_cfg \<noteq> []" by (simp add: test_cfg_def)
  have i: "mq_Init test_cfg open_channel empty_broker =
           (None, open_channel\<lparr>last_queue := Some ''users.events''\<rparr>, test_topology)"
    by (simp add: mq_Init_def test_cfg_def empty_broker_def open_channel_def
        ExchangeDeclare_def QueueDeclare_def QueueBind_def channel_exception_def
        resolve_queue_def reserved_name_def MethodPost_def MethodPut_def MethodDelete_def
        Let_def test_topology_def)
  from topology_declared_twice[OF n i] show ?thesis .
qed

text \<open>
  C7 as stated fails for an empty queue name: the broker then names the queue itself, so a
  second declaration with the same configuration succeeds too but is not a no-op: it
  creates another queue. This is so for \<open>RabbitMQ.Init\<close> run again, and for
  \<open>Consumer.Init\<close> run after it.
\<close>

theorem topology_declared_twice_counterexample:
  "fst (fst (Init_twice unnamed_cfg open_channel empty_broker)) = None
   \<and> fst (snd (Init_twice unnamed_cfg open_channel empty_broker)) = None
   \<and> queues (snd (snd (fst (Init_twice unnamed_cfg open_channel empty_broker))))
       ''amq.gen-I'' = None
   \<and> queues (snd (snd (snd (Init_twice unnamed_cfg open_channel empty_broker))))
       ''amq.gen-I'' \<noteq> None
   \<and> fst (Consumer_Init (New_consumer unnamed_cfg
       (snd (snd (fst (Init_twice unnamed_cfg open_channel empty_broker)))))) = None
   \<and> queues (c_broker (snd (Consumer_Init (New_consumer unnamed_cfg
       (snd (snd (fst (Init_twice unnamed_cfg open_channel empty_broker))))))))
       ''amq.gen-I'' \<noteq> None"
  by (simp add: Init_twice_def mq_Init_def unnamed_cfg_def test_cfg_def empty_broker_def
      open_channel_def ExchangeDeclare_def QueueDeclare_def QueueBind_def
      channel_exception_def resolve_queue_def reserved_name_def MethodPost_def
      MethodPut_def MethodDelete_def Let_def gen_name_def Consumer_Init_def
      New_consumer_def consumer_subscribe_def Qos_def Consume_def preFetchCount_def
      make_chan_def)

end
